theory Spec2Isabelle
  imports Complex_Main
begin

section \<open>JavaScript values\<close>

text \<open>
  The worker (\<^verbatim>\<open>src/worker/index.js\<close>, lines 1 to 310; line numbers below are those
  of that file) normalises an object that was parsed from the classification model's
  JSON answer. The values it can meet are the JSON values, and \<^verbatim>\<open>undefined\<close> for a
  property that is not there.

  Numbers. A JavaScript number is a binary64 float. Here a number is \<^verbatim>\<open>NaN\<close>, one of the
  two infinities, or an exact rational: the rounding of binary64 arithmetic and the
  negative zero are outside this model. Everything the worker derives from the sign, the
  order, the bounds and \<^verbatim>\<open>NaN\<close> of a number is inside it.

  Strings are lists of characters; the letter case functions and the white space of
  \<^verbatim>\<open>trim\<close> are those of ASCII.
\<close>

datatype jsnum = NaN | NegInf | Fin rat | PosInf

datatype jsval =
    JUndefined
  | JNull
  | JBool bool
  | JNum jsnum
  | JStr string
  | JArr "jsval list"
  | JObj "(string \<times> jsval) list"

text \<open>The exceptions of the run, each with its message.\<close>

datatype exn = TypeError string | SyntaxError string | Error string

subsection \<open>Number arithmetic\<close>

text \<open>The operators \<^verbatim>\<open><\<close>, \<^verbatim>\<open><=\<close>, \<^verbatim>\<open>>\<close>: every comparison with \<^verbatim>\<open>NaN\<close> is false.\<close>

fun jsLess :: "jsnum \<Rightarrow> jsnum \<Rightarrow> bool" where
  "jsLess NaN y = False"
| "jsLess x NaN = False"
| "jsLess (Fin a) (Fin b) = (a < b)"
| "jsLess x NegInf = False"
| "jsLess NegInf y = True"
| "jsLess PosInf y = False"
| "jsLess (Fin a) PosInf = True"

definition jsLessEq :: "jsnum \<Rightarrow> jsnum \<Rightarrow> bool" where
  "jsLessEq x y = (x \<noteq> NaN \<and> y \<noteq> NaN \<and> (x = y \<or> jsLess x y))"

definition jsGreater :: "jsnum \<Rightarrow> jsnum \<Rightarrow> bool" where
  "jsGreater x y = jsLess y x"

text \<open>\<^verbatim>\<open>Math.min\<close> and \<^verbatim>\<open>Math.max\<close> of two numbers: \<^verbatim>\<open>NaN\<close> when either is.\<close>

definition jsMin :: "jsnum \<Rightarrow> jsnum \<Rightarrow> jsnum" where
  "jsMin x y = (if x = NaN \<or> y = NaN then NaN else if jsLess y x then y else x)"

definition jsMax :: "jsnum \<Rightarrow> jsnum \<Rightarrow> jsnum" where
  "jsMax x y = (if x = NaN \<or> y = NaN then NaN else if jsLess x y then y else x)"

fun jsNeg :: "jsnum \<Rightarrow> jsnum" where
  "jsNeg NaN = NaN"
| "jsNeg NegInf = PosInf"
| "jsNeg (Fin a) = Fin (- a)"
| "jsNeg PosInf = NegInf"

fun jsAdd :: "jsnum \<Rightarrow> jsnum \<Rightarrow> jsnum" where
  "jsAdd NaN y = NaN"
| "jsAdd x NaN = NaN"
| "jsAdd (Fin a) (Fin b) = Fin (a + b)"
| "jsAdd PosInf NegInf = NaN"
| "jsAdd NegInf PosInf = NaN"
| "jsAdd PosInf y = PosInf"
| "jsAdd NegInf y = NegInf"
| "jsAdd (Fin a) y = y"

definition jsSub :: "jsnum \<Rightarrow> jsnum \<Rightarrow> jsnum" where
  "jsSub x y = jsAdd x (jsNeg y)"

text \<open>The sign of an infinite product or quotient.\<close>

definition signedInf :: "bool \<Rightarrow> jsnum" where
  "signedInf positive = (if positive then PosInf else NegInf)"

fun jsMul :: "jsnum \<Rightarrow> jsnum \<Rightarrow> jsnum" where
  "jsMul NaN y = NaN"
| "jsMul x NaN = NaN"
| "jsMul (Fin a) (Fin b) = Fin (a * b)"
| "jsMul (Fin a) PosInf = (if a = 0 then NaN else signedInf (0 < a))"
| "jsMul (Fin a) NegInf = (if a = 0 then NaN else signedInf (a < 0))"
| "jsMul PosInf (Fin b) = (if b = 0 then NaN else signedInf (0 < b))"
| "jsMul NegInf (Fin b) = (if b = 0 then NaN else signedInf (b < 0))"
| "jsMul PosInf PosInf = PosInf"
| "jsMul NegInf NegInf = PosInf"
| "jsMul PosInf NegInf = NegInf"
| "jsMul NegInf PosInf = NegInf"

fun jsDiv :: "jsnum \<Rightarrow> jsnum \<Rightarrow> jsnum" where
  "jsDiv NaN y = NaN"
| "jsDiv x NaN = NaN"
| "jsDiv (Fin a) (Fin b) =
     (if b \<noteq> 0 then Fin (a / b) else if a = 0 then NaN else signedInf (0 < a))"
| "jsDiv (Fin a) y = Fin 0"
| "jsDiv PosInf (Fin b) = signedInf (0 \<le> b)"
| "jsDiv NegInf (Fin b) = signedInf (b < 0)"
| "jsDiv x y = NaN"

text \<open>\<^verbatim>\<open>Math.round\<close>: the nearest integer, a tie going up.\<close>

fun jsRound :: "jsnum \<Rightarrow> jsnum" where
  "jsRound (Fin a) = Fin (of_int \<lfloor>a + 1 / 2\<rfloor>)"
| "jsRound x = x"

subsection \<open>Truthiness, property reads, conversions\<close>

text \<open>What \<^verbatim>\<open>||\<close>, \<^verbatim>\<open>&&\<close>, \<^verbatim>\<open>!\<close> and \<^verbatim>\<open>?:\<close> test.\<close>

fun truthy :: "jsval \<Rightarrow> bool" where
  "truthy JUndefined = False"
| "truthy JNull = False"
| "truthy (JBool b) = b"
| "truthy (JNum n) = (n \<noteq> NaN \<and> n \<noteq> Fin 0)"
| "truthy (JStr s) = (s \<noteq> [])"
| "truthy (JArr xs) = True"
| "truthy (JObj kvs) = True"

text \<open>What \<^verbatim>\<open>??\<close> and \<^verbatim>\<open>?.\<close> test.\<close>

fun nullish :: "jsval \<Rightarrow> bool" where
  "nullish JUndefined = True"
| "nullish JNull = True"
| "nullish v = False"

definition jsOr :: "jsval \<Rightarrow> jsval \<Rightarrow> jsval" where
  "jsOr a b = (if truthy a then a else b)"

definition jsCoalesce :: "jsval \<Rightarrow> jsval \<Rightarrow> jsval" where
  "jsCoalesce a b = (if nullish a then b else a)"

definition isArray :: "jsval \<Rightarrow> bool" where
  "isArray v = (case v of JArr xs \<Rightarrow> True | _ \<Rightarrow> False)"

text \<open>
  The read \<^verbatim>\<open>v.k\<close> of a value that is neither \<^verbatim>\<open>null\<close> nor \<^verbatim>\<open>undefined\<close>, for the
  property names the worker reads (none of them is inherited from a prototype): an own
  property of an object, the \<^verbatim>\<open>length\<close> of an array or a string, \<^verbatim>\<open>undefined\<close>
  otherwise. An object is the association list of its own properties.
\<close>

definition field :: "jsval \<Rightarrow> string \<Rightarrow> jsval" where
  "field v k =
     (case v of
        JObj kvs \<Rightarrow> (case map_of kvs k of Some x \<Rightarrow> x | None \<Rightarrow> JUndefined)
      | JArr xs \<Rightarrow> (if k = ''length'' then JNum (Fin (of_nat (length xs))) else JUndefined)
      | JStr s \<Rightarrow> (if k = ''length'' then JNum (Fin (of_nat (length s))) else JUndefined)
      | _ \<Rightarrow> JUndefined)"

text \<open>The read \<^verbatim>\<open>v.k\<close> of any value: a \<^verbatim>\<open>TypeError\<close> on \<^verbatim>\<open>null\<close> and \<^verbatim>\<open>undefined\<close>.\<close>

definition getProp :: "jsval \<Rightarrow> string \<Rightarrow> exn + jsval" where
  "getProp v k =
     (if nullish v then Inl (TypeError ''Cannot read properties of null or undefined'')
      else Inr (field v k))"

text \<open>The optional read \<^verbatim>\<open>v?.k\<close>.\<close>

definition optField :: "jsval \<Rightarrow> string \<Rightarrow> jsval" where
  "optField v k = (if nullish v then JUndefined else field v k)"

subsection \<open>Text of a value\<close>

text \<open>
  \<^verbatim>\<open>Number.prototype.toString\<close> prints the shortest decimal text that reads back as the same
  binary64 value. It is a parameter \<open>fmt\<close> of everything below: each theorem holds for
  every such function.

  \<^verbatim>\<open>v.toString()\<close> and the conversion of \<open>v\<close> to a string agree on the values met here.
  An array is the text of its elements joined by commas, \<^verbatim>\<open>null\<close> and \<^verbatim>\<open>undefined\<close>
  elements being empty. A plain object is \<^verbatim>\<open>[object Object]\<close>; an own property
  \<^verbatim>\<open>toString\<close> of a parsed object is never a function, and the conversion raises.
\<close>

fun toStr :: "(jsnum \<Rightarrow> string) \<Rightarrow> jsval \<Rightarrow> exn + string"
and joinStr :: "(jsnum \<Rightarrow> string) \<Rightarrow> jsval list \<Rightarrow> exn + string" where
  "toStr fmt JUndefined = Inr ''undefined''"
| "toStr fmt JNull = Inr ''null''"
| "toStr fmt (JBool b) = Inr (if b then ''true'' else ''false'')"
| "toStr fmt (JNum n) = Inr (fmt n)"
| "toStr fmt (JStr s) = Inr s"
| "toStr fmt (JArr xs) = joinStr fmt xs"
| "toStr fmt (JObj kvs) =
     (if map_of kvs ''toString'' \<noteq> None
      then Inl (TypeError ''Cannot convert object to primitive value'')
      else Inr ''[object Object]'')"
| "joinStr fmt [] = Inr []"
| "joinStr fmt (x # xs) =
     (case (if nullish x then Inr [] else toStr fmt x) of
        Inl e \<Rightarrow> Inl e
      | Inr s \<Rightarrow>
          (if xs = [] then Inr s
           else (case joinStr fmt xs of Inl e \<Rightarrow> Inl e | Inr r \<Rightarrow> Inr (s @ '','' @ r))))"

subsection \<open>Number of a string\<close>

text \<open>
  \<^verbatim>\<open>Number(s)\<close> reads the whole trimmed string as a numeric literal: empty is 0; an
  optional sign and \<^verbatim>\<open>Infinity\<close> or decimal digits with an optional fraction and
  exponent; an unsigned \<^verbatim>\<open>0x\<close>, \<^verbatim>\<open>0o\<close> or \<^verbatim>\<open>0b\<close> integer; anything else is \<^verbatim>\<open>NaN\<close>.
\<close>

definition isWhite :: "char \<Rightarrow> bool" where
  "isWhite c = ((of_char c :: nat) \<in> {9, 10, 11, 12, 13, 32})"

definition trim :: "string \<Rightarrow> string" where
  "trim s = rev (dropWhile isWhite (rev (dropWhile isWhite s)))"

definition digitOf :: "char \<Rightarrow> nat option" where
  "digitOf c =
     (let n = (of_char c :: nat) in
      if 48 \<le> n \<and> n \<le> 57 then Some (n - 48)
      else if 97 \<le> n \<and> n \<le> 102 then Some (n - 87)
      else if 65 \<le> n \<and> n \<le> 70 then Some (n - 55)
      else None)"

definition isDigit :: "char \<Rightarrow> bool" where
  "isDigit c = (case digitOf c of Some d \<Rightarrow> d < 10 | None \<Rightarrow> False)"

fun radixVal :: "nat \<Rightarrow> string \<Rightarrow> nat \<Rightarrow> nat option" where
  "radixVal b [] acc = Some acc"
| "radixVal b (c # cs) acc =
     (case digitOf c of
        Some d \<Rightarrow> (if d < b then radixVal b cs (b * acc + d) else None)
      | None \<Rightarrow> None)"

definition digitsIn :: "nat \<Rightarrow> string \<Rightarrow> nat option" where
  "digitsIn b s = (if s = [] then None else radixVal b s 0)"

definition exponentOf :: "string \<Rightarrow> int option" where
  "exponentOf s =
     (case s of
        [] \<Rightarrow> Some 0
      | c # r \<Rightarrow>
          (if c = CHR ''e'' \<or> c = CHR ''E'' then
             (case r of
                [] \<Rightarrow> None
              | d # r' \<Rightarrow>
                  (if d = CHR ''+'' then map_option int (digitsIn 10 r')
                   else if d = CHR ''-'' then map_option (\<lambda>n. - int n) (digitsIn 10 r')
                   else map_option int (digitsIn 10 r)))
           else None))"

definition unsignedDecimal :: "string \<Rightarrow> jsnum" where
  "unsignedDecimal s =
     (if s = ''Infinity'' then PosInf
      else
        (let ip = takeWhile isDigit s;
             r1 = dropWhile isDigit s;
             dot = (case r1 of [] \<Rightarrow> False | c # r \<Rightarrow> c = CHR ''.'');
             fp = (if dot then takeWhile isDigit (tl r1) else []);
             r2 = (if dot then dropWhile isDigit (tl r1) else r1)
         in if ip = [] \<and> fp = [] then NaN
            else
              (case (radixVal 10 (ip @ fp) 0, exponentOf r2) of
                 (Some m, Some e) \<Rightarrow> Fin (of_nat m * power_int 10 (e - int (length fp)))
               | _ \<Rightarrow> NaN)))"

definition radixLiteral :: "string \<Rightarrow> jsnum option" where
  "radixLiteral t =
     (case t of
        z # x # ds \<Rightarrow>
          (if z \<noteq> CHR ''0'' then None
           else if x = CHR ''x'' \<or> x = CHR ''X'' then
             Some (case digitsIn 16 ds of Some n \<Rightarrow> Fin (of_nat n) | None \<Rightarrow> NaN)
           else if x = CHR ''o'' \<or> x = CHR ''O'' then
             Some (case digitsIn 8 ds of Some n \<Rightarrow> Fin (of_nat n) | None \<Rightarrow> NaN)
           else if x = CHR ''b'' \<or> x = CHR ''B'' then
             Some (case digitsIn 2 ds of Some n \<Rightarrow> Fin (of_nat n) | None \<Rightarrow> NaN)
           else None)
      | _ \<Rightarrow> None)"

definition strToNumber :: "string \<Rightarrow> jsnum" where
  "strToNumber s =
     (let t = trim s in
      case t of
        [] \<Rightarrow> Fin 0
      | c # r \<Rightarrow>
          (case radixLiteral t of
             Some n \<Rightarrow> n
           | None \<Rightarrow>
               (if c = CHR ''+'' then unsignedDecimal r
                else if c = CHR ''-'' then jsNeg (unsignedDecimal r)
                else unsignedDecimal t)))"

text \<open>\<^verbatim>\<open>Number(v)\<close>.\<close>

definition toNumber :: "(jsnum \<Rightarrow> string) \<Rightarrow> jsval \<Rightarrow> exn + jsnum" where
  "toNumber fmt v =
     (case v of
        JUndefined \<Rightarrow> Inr NaN
      | JNull \<Rightarrow> Inr (Fin 0)
      | JBool b \<Rightarrow> Inr (Fin (if b then 1 else 0))
      | JNum n \<Rightarrow> Inr n
      | JStr s \<Rightarrow> Inr (strToNumber s)
      | _ \<Rightarrow> (case toStr fmt v of Inl e \<Rightarrow> Inl e | Inr s \<Rightarrow> Inr (strToNumber s)))"

text \<open>ASCII letter case, and the class \<^verbatim>\<open>\w\<close> of a regular expression.\<close>

definition toLowerChar :: "char \<Rightarrow> char" where
  "toLowerChar c =
     (let n = (of_char c :: nat) in if 65 \<le> n \<and> n \<le> 90 then char_of (n + 32) else c)"

definition toUpperChar :: "char \<Rightarrow> char" where
  "toUpperChar c =
     (let n = (of_char c :: nat) in if 97 \<le> n \<and> n \<le> 122 then char_of (n - 32) else c)"

definition toLowerCase :: "string \<Rightarrow> string" where
  "toLowerCase s = map toLowerChar s"

definition isWord :: "char \<Rightarrow> bool" where
  "isWord c =
     (let n = (of_char c :: nat) in
      (48 \<le> n \<and> n \<le> 57) \<or> (65 \<le> n \<and> n \<le> 90) \<or> (97 \<le> n \<and> n \<le> 122) \<or> n = 95)"

section \<open>The report normaliser and its scoring\<close>

text \<open>Lines 61 to 70: the taxonomy and the weight of each of its ids.\<close>

definition TACTIC_IDS :: "string list" where
  "TACTIC_IDS =
     [''gaslighting'', ''darvo'', ''blame-shifting'', ''minimization'', ''stonewalling'',
      ''contempt'', ''guilt-tripping'', ''threats'', ''coercion'', ''triangulation'',
      ''boundaries'', ''projection'']"

definition RISK_WEIGHTS :: "(string \<times> rat) list" where
  "RISK_WEIGHTS =
     [(''threats'', 140 / 100), (''coercion'', 130 / 100), (''gaslighting'', 120 / 100),
      (''darvo'', 110 / 100), (''blame-shifting'', 1), (''minimization'', 1),
      (''stonewalling'', 95 / 100), (''contempt'', 105 / 100), (''guilt-tripping'', 1),
      (''triangulation'', 1), (''boundaries'', 1), (''projection'', 1)]"

text \<open>
  \<^verbatim>\<open>RISK_WEIGHTS[id] || 1.0\<close>, for an id of the taxonomy or \<^verbatim>\<open>other\<close> (the only ids
  the normaliser produces).
\<close>

definition weightOf :: "string \<Rightarrow> jsnum" where
  "weightOf i =
     (case map_of RISK_WEIGHTS i of
        Some w \<Rightarrow> (if truthy (JNum (Fin w)) then Fin w else Fin 1)
      | None \<Rightarrow> Fin 1)"

text \<open>Line 71: \<^verbatim>\<open>n = Number(n||0); return Math.max(lo, Math.min(hi, n))\<close>.\<close>

definition clamp :: "(jsnum \<Rightarrow> string) \<Rightarrow> jsval \<Rightarrow> jsnum \<Rightarrow> jsnum \<Rightarrow> exn + jsnum" where
  "clamp fmt n lo hi =
     (case toNumber fmt (jsOr n (JNum (Fin 0))) of
        Inl e \<Rightarrow> Inl e
      | Inr x \<Rightarrow> Inr (jsMax lo (jsMin hi x)))"

text \<open>
  The object literal of lines 98 to 105, then with its \<^verbatim>\<open>score\<close> (line 106), then with
  its \<^verbatim>\<open>contribution_pct\<close> (line 124).
\<close>

record tactic_obj =
  tactic_id :: string
  name :: jsval
  likelihood :: jsnum
  severity :: jsnum
  frequency :: jsnum
  examples :: "jsval list"

record tactic_scored = tactic_obj +
  score :: jsnum

record tactic_out = tactic_scored +
  contribution_pct :: jsnum

definition withScore :: "tactic_obj \<Rightarrow> jsnum \<Rightarrow> tactic_scored" where
  "withScore t s = tactic_obj.extend t (tactic_scored.fields s)"

definition withContribution :: "tactic_scored \<Rightarrow> jsnum \<Rightarrow> tactic_out" where
  "withContribution t c = tactic_scored.extend t (tactic_out.fields c)"

text \<open>
  Lines 72 to 77. The argument is the object literal, whose \<^verbatim>\<open>frequency\<close> is a number
  and whose \<^verbatim>\<open>examples\<close> is an array.
\<close>

definition tacticScore :: "(jsnum \<Rightarrow> string) \<Rightarrow> 'a tactic_obj_scheme \<Rightarrow> exn + jsnum" where
  "tacticScore fmt t =
     (case clamp fmt (JNum (likelihood t)) (Fin 0) (Fin 1) of
        Inl e \<Rightarrow> Inl e
      | Inr p \<Rightarrow>
     (case clamp fmt (JNum (severity t)) (Fin 1) (Fin 5) of
        Inl e \<Rightarrow> Inl e
      | Inr s \<Rightarrow>
     (case toNumber fmt
             (jsCoalesce (JNum (frequency t))
                (jsOr (optField (JArr (examples t)) ''length'') (JNum (Fin 0)))) of
        Inl e \<Rightarrow> Inl e
      | Inr n \<Rightarrow>
          (let f = jsMin (Fin 5) n in
           Inr (jsRound
                  (jsAdd
                     (jsAdd (jsMul (Fin 40) p)
                        (jsMul (Fin 35) (jsDiv (jsSub s (Fin 1)) (Fin 4))))
                     (jsMul (Fin 25) (jsMin (Fin 1) (jsDiv f (Fin 5))))))))))"

text \<open>Line 78.\<close>

definition riskLabel :: "jsnum \<Rightarrow> string" where
  "riskLabel s =
     (if jsLess s (Fin 34) then ''low'' else if jsLessEq s (Fin 66) then ''medium'' else ''high'')"

text \<open>
  Line 97: \<^verbatim>\<open>id.replace(/(^|[-_])(\w)/g, (_,a,b) => (a ? " " : "") + b.toUpperCase())\<close>.
  The flag is true at the start of the string only.
\<close>

fun titleCase :: "bool \<Rightarrow> string \<Rightarrow> string" where
  "titleCase start [] = []"
| "titleCase start [c] = (if start \<and> isWord c then [toUpperChar c] else [c])"
| "titleCase start (c # d # ds) =
     (if start \<and> isWord c then toUpperChar c # titleCase False (d # ds)
      else if (c = CHR ''-'' \<or> c = CHR ''_'') \<and> isWord d
        then CHR '' '' # toUpperChar d # titleCase False ds
      else c # titleCase False (d # ds))"

text \<open>
  Lines 95 to 108, the function mapped over the supplied tactics. The first read,
  \<^verbatim>\<open>t.id\<close>, raises on \<^verbatim>\<open>null\<close> and \<^verbatim>\<open>undefined\<close>; the later reads are of the same value.
\<close>

definition normalizeTactic :: "(jsnum \<Rightarrow> string) \<Rightarrow> jsval \<Rightarrow> exn + tactic_scored" where
  "normalizeTactic fmt t =
     (case getProp t ''id'' of
        Inl e \<Rightarrow> Inl e
      | Inr tid \<Rightarrow>
     (case toStr fmt (jsOr tid (jsOr (field t ''name'') (JStr []))) of
        Inl e \<Rightarrow> Inl e
      | Inr s \<Rightarrow>
     (let i = toLowerCase s;
          nm = jsOr (field t ''name'')
                 (JStr (if i \<noteq> [] then titleCase True i else ''Other''))
      in
     (case clamp fmt
             (jsCoalesce (field t ''likelihood'') (jsCoalesce (field t ''p'') (JNum (Fin 0))))
             (Fin 0) (Fin 1) of
        Inl e \<Rightarrow> Inl e
      | Inr lk \<Rightarrow>
     (case clamp fmt (jsCoalesce (field t ''severity'') (JNum (Fin 3))) (Fin 1) (Fin 5) of
        Inl e \<Rightarrow> Inl e
      | Inr sv \<Rightarrow>
     (case toNumber fmt
             (jsCoalesce (field t ''frequency'')
                (jsOr (optField (field t ''examples'') ''length'') (JNum (Fin 0)))) of
        Inl e \<Rightarrow> Inl e
      | Inr fq \<Rightarrow>
          (let obj =
                 \<lparr> tactic_id = (if i \<noteq> [] \<and> i \<in> set TACTIC_IDS then i else ''other''),
                   name = nm,
                   likelihood = lk,
                   severity = sv,
                   frequency = jsMax (Fin 0) (jsMin (Fin 5) fq),
                   examples = (case field t ''examples'' of JArr xs \<Rightarrow> take 5 xs | _ \<Rightarrow> []) \<rparr>
           in (case tacticScore fmt obj of
                 Inl e \<Rightarrow> Inl e
               | Inr sc \<Rightarrow> Inr (withScore obj sc)))))))))"

text \<open>\<^verbatim>\<open>list.map\<close> with a function that can raise: the first exception ends the map.\<close>

fun mapE :: "('a \<Rightarrow> exn + 'b) \<Rightarrow> 'a list \<Rightarrow> exn + 'b list" where
  "mapE f [] = Inr []"
| "mapE f (x # xs) =
     (case f x of
        Inl e \<Rightarrow> Inl e
      | Inr y \<Rightarrow> (case mapE f xs of Inl e \<Rightarrow> Inl e | Inr ys \<Rightarrow> Inr (y # ys)))"

text \<open>
  Lines 113 to 118, one turn of the loop over \<^verbatim>\<open>seen\<close>: an entry is read for its id
  and score only; the state is \<^verbatim>\<open>(num, den, sumWeightScore)\<close>.
\<close>

definition accumulate :: "string \<times> jsnum \<Rightarrow> jsnum \<times> jsnum \<times> jsnum \<Rightarrow> jsnum \<times> jsnum \<times> jsnum" where
  "accumulate t st =
     (case st of (num, den, sumWeightScore) \<Rightarrow>
        (let w = weightOf (fst t) in
         (jsAdd num (jsMul (jsDiv (snd t) (Fin 100)) w),
          jsAdd den w,
          jsAdd sumWeightScore (jsMul (snd t) w))))"

text \<open>Lines 122 to 124.\<close>

definition contribution :: "jsnum \<Rightarrow> tactic_scored \<Rightarrow> tactic_out" where
  "contribution sumWeightScore t =
     (let w = weightOf (tactic_id t);
          part = jsMul (score t) w
      in withContribution t
           (if jsGreater sumWeightScore (Fin 0)
            then jsDiv (jsRound (jsMul (jsDiv part sumWeightScore) (Fin 1000))) (Fin 10)
            else Fin 0))"

record report =
  risk_score :: jsnum
  risk_label :: jsval
  confidence :: jsnum
  tactics :: "tactic_out list"
  receipts :: "jsval list"
  kpis :: jsval
  narrative_md :: jsval

text \<open>Lines 80 to 133.\<close>

definition normalizeReport :: "(jsnum \<Rightarrow> string) \<Rightarrow> jsval \<Rightarrow> exn + report" where
  "normalizeReport fmt raw =
     (case getProp raw ''confidence'' of
        Inl e \<Rightarrow> Inl e
      | Inr c \<Rightarrow>
     (case clamp fmt (jsCoalesce c (JNum (Fin (85 / 100)))) (Fin 0) (Fin 1) of
        Inl e \<Rightarrow> Inl e
      | Inr conf \<Rightarrow>
     (let kp = jsOr (field raw ''kpis'') (JObj []);
          narrative =
            (case field raw ''narrative_md'' of
               JStr s \<Rightarrow> (if truthy (JStr (trim s)) then JStr s else JNull)
             | _ \<Rightarrow> JNull);
          list = (case field raw ''tactics'' of JArr xs \<Rightarrow> xs | _ \<Rightarrow> [])
      in
     (case mapE (normalizeTactic fmt) list of
        Inl e \<Rightarrow> Inl e
      | Inr ts \<Rightarrow>
          (let seen =
                 (if ts \<noteq> [] then map (\<lambda>t. (tactic_id t, score t)) ts
                  else [(''other'', Fin 0)]);
               st = fold accumulate seen (Fin 0, Fin 0, Fin 0);
               num = fst st;
               den = fst (snd st);
               sumWeightScore = snd (snd st);
               rs = jsRound
                      (jsMul (Fin 100) (if truthy (JNum den) then jsDiv num den else Fin 0));
               rl = jsOr (field raw ''risk_label'') (JStr (riskLabel rs));
               rc = (case field raw ''receipts'' of
                       JArr xs \<Rightarrow> take 30 xs
                     | r \<Rightarrow>
                         (case optField r ''highlights'' of
                            JArr hs \<Rightarrow> take 30 hs
                          | _ \<Rightarrow> []))
           in Inr \<lparr> risk_score = rs,
                    risk_label = rl,
                    confidence = conf,
                    tactics = map (contribution sumWeightScore) ts,
                    receipts = rc,
                    kpis = kp,
                    narrative_md = narrative \<rparr>)))))"

section \<open>The job handler\<close>

text \<open>
  The push endpoint of lines 217 to 306, with everything it reaches outside the process
  made explicit: the two document collections and the list of calls made to the image,
  recognition, classification and object stores are the state; what those services
  answer is an environment. A call to the document store can raise at each place the
  handler makes one. Time stamps are left out.
\<close>

datatype job_error = ErrorObject string string | ErrorText string

record fileref =
  path :: string

record job =
  plan :: string
  files :: "fileref list option"
  userId :: "string option"
  instructions :: "string option"
  status :: string
  reportId :: "string option"
  error :: "job_error option"
  warn :: "string option"

record report_doc =
  doc_reportId :: string
  doc_userId :: "string option"
  doc_jobId :: string
  json :: report
  images_deleted :: bool

datatype call = Preprocess string | Ocr string | Classify string string | Delete string

record world =
  jobs :: "string \<Rightarrow> job option"
  reports :: "string \<Rightarrow> report_doc option"
  calls :: "call list"

text \<open>The places where the handler calls the document store.\<close>

datatype site =
    GetJob
  | WriteTooMany
  | WriteProcessing
  | WriteReport
  | WriteComplete
  | WriteImagesDeleted
  | WriteError

datatype deletion = Deleted | NotFound | DeleteFailed exn

text \<open>
  The configuration (lines 14 to 17, 136 to 170) and the services: \<open>parsePayload\<close> is
  \<^verbatim>\<open>JSON.parse(b64(data))\<close>, \<open>scrub\<close> the chain of replacements of lines 52 to 57,
  \<open>chatCompletion\<close> the content of the model's first choice (empty when there is none),
  \<open>jsonParse\<close> is \<^verbatim>\<open>JSON.parse\<close> with \<open>None\<close> for a raise, \<open>deleteFile\<close> the outcome
  of deleting one object.
\<close>

record env =
  numText :: "jsnum \<Rightarrow> string"
  FREE_MAX :: nat
  PRO_MAX :: nat
  DEFAULT_INSTRUCTIONS :: string
  parsePayload :: "string \<Rightarrow> exn + jsval"
  fault :: "site \<Rightarrow> exn option"
  preprocessImageToBuffer :: "string \<Rightarrow> exn + string"
  ocrBuffer :: "string \<Rightarrow> exn + string"
  scrub :: "string \<Rightarrow> string"
  openai :: bool
  chatCompletion :: "string \<Rightarrow> string \<Rightarrow> exn + string"
  jsonParse :: "string \<Rightarrow> jsval option"
  deleteFile :: "string \<Rightarrow> deletion"

record pubsub_message =
  data :: "string option"

record request =
  message :: "pubsub_message option"

type_synonym response = "nat \<times> string"

text \<open>Line 28.\<close>

definition maxForPlan :: "env \<Rightarrow> string \<Rightarrow> nat" where
  "maxForPlan ev p = (if p = ''pro'' then PRO_MAX ev else FREE_MAX ev)"

text \<open>Lines 49 to 58.\<close>

definition cleanOcr :: "env \<Rightarrow> string \<Rightarrow> string" where
  "cleanOcr ev s = (if s = [] then [] else scrub ev s)"

text \<open>\<^verbatim>\<open>texts.join('\n\n')\<close>.\<close>

fun joinBlank :: "string list \<Rightarrow> string" where
  "joinBlank [] = []"
| "joinBlank [x] = x"
| "joinBlank (x # y # ys) = x @ [CHR 0x0A, CHR 0x0A] @ joinBlank (y # ys)"

text \<open>
  Lines 173 to 180: the text from the first \<^verbatim>\<open>{\<close> to the last \<^verbatim>\<open>}\<close>, parsed. There
  is such a text exactly when a \<^verbatim>\<open>}\<close> follows the first \<^verbatim>\<open>{\<close>.
\<close>

definition extractJson :: "env \<Rightarrow> string \<Rightarrow> jsval" where
  "extractJson ev t =
     (let a = dropWhile (\<lambda>c. c \<noteq> CHR ''{'') t;
          b = rev (dropWhile (\<lambda>c. c \<noteq> CHR ''}'') (rev a))
      in if b \<noteq> []
         then (case jsonParse ev b of Some v \<Rightarrow> v | None \<Rightarrow> JObj [])
         else JObj [])"

text \<open>
  Lines 182 to 201. The result comes with the calls made: the classification is called
  only when a client is configured.
\<close>

definition analyzeWithOpenAI :: "env \<Rightarrow> string \<Rightarrow> string option \<Rightarrow> (exn + report) \<times> call list" where
  "analyzeWithOpenAI ev ocrText instr =
     (if \<not> openai ev then (Inl (Error ''OPENAI_API_KEY not set''), [])
      else
        (let i = (case instr of
                    Some s \<Rightarrow> (if s \<noteq> [] \<and> trim s \<noteq> [] then trim s else DEFAULT_INSTRUCTIONS ev)
                  | None \<Rightarrow> DEFAULT_INSTRUCTIONS ev)
         in (case chatCompletion ev i ocrText of
               Inl e \<Rightarrow> (Inl e, [Classify i ocrText])
             | Inr content \<Rightarrow>
                 (let t = (if content \<noteq> [] then content else ''{}'');
                      raw = jsOr (extractJson ev t) (JObj [])
                  in (normalizeReport (numText ev) raw, [Classify i ocrText])))))"

text \<open>Lines 204 to 214: every deletion is issued; not found is no failure.\<close>

definition filesOr :: "fileref list option \<Rightarrow> fileref list" where
  "filesOr fs = (case fs of Some xs \<Rightarrow> xs | None \<Rightarrow> [])"

definition removed :: "env \<Rightarrow> fileref \<Rightarrow> bool" where
  "removed ev f = (case deleteFile ev (path f) of DeleteFailed e \<Rightarrow> False | _ \<Rightarrow> True)"

definition purgeImages :: "env \<Rightarrow> fileref list option \<Rightarrow> bool \<times> call list" where
  "purgeImages ev fs =
     (list_all (removed ev) (filesOr fs), map (\<lambda>f. Delete (path f)) (filesOr fs))"

text \<open>Lines 244 to 253, one turn: a failure of either step is logged and skipped.\<close>

definition ocrFile :: "env \<Rightarrow> fileref \<Rightarrow> string list \<times> call list \<Rightarrow> string list \<times> call list" where
  "ocrFile ev f st =
     (case st of (texts, cs) \<Rightarrow>
        (case preprocessImageToBuffer ev (path f) of
           Inl e \<Rightarrow> (texts, cs @ [Preprocess (path f)])
         | Inr buf \<Rightarrow>
             (case ocrBuffer ev buf of
                Inl e \<Rightarrow> (texts, cs @ [Preprocess (path f), Ocr (path f)])
              | Inr fullText \<Rightarrow> (texts @ [fullText], cs @ [Preprocess (path f), Ocr (path f)]))))"

text \<open>Lines 243 to 261: recognition of every file, cleaning, classification.\<close>

definition analysis :: "env \<Rightarrow> job \<Rightarrow> (exn + report) \<times> call list" where
  "analysis ev jb =
     (let st = fold (ocrFile ev) (filesOr (files jb)) ([], []);
          ocrCombined = cleanOcr ev (joinBlank (fst st));
          r = analyzeWithOpenAI ev
                (if ocrCombined \<noteq> [] then ocrCombined else ''NO_TEXT_EXTRACTED'')
                (instructions jb)
      in (fst r, snd st @ snd r))"

text \<open>
  The document store. \<^verbatim>\<open>jobsCol.doc(id)\<close> wants a non-empty string; \<^verbatim>\<open>update\<close> wants
  the document to exist; each call can raise at its site.
\<close>

definition docRef :: "jsval \<Rightarrow> exn + string" where
  "docRef v =
     (case v of
        JStr s \<Rightarrow> (if s \<noteq> [] then Inr s else Inl (Error ''Path must be a non-empty string''))
      | _ \<Rightarrow> Inl (Error ''Path must be a non-empty string''))"

definition updateJob :: "env \<Rightarrow> site \<Rightarrow> string \<Rightarrow> (job \<Rightarrow> job) \<Rightarrow> world \<Rightarrow> exn + world" where
  "updateJob ev st i f w =
     (case fault ev st of
        Some e \<Rightarrow> Inl e
      | None \<Rightarrow>
          (case jobs w i of
             None \<Rightarrow> Inl (Error ''NOT_FOUND'')
           | Some j \<Rightarrow> Inr (w\<lparr>jobs := (jobs w)(i \<mapsto> f j)\<rparr>)))"

definition setReport :: "env \<Rightarrow> string \<Rightarrow> report_doc \<Rightarrow> world \<Rightarrow> exn + world" where
  "setReport ev i d w =
     (case fault ev WriteReport of
        Some e \<Rightarrow> Inl e
      | None \<Rightarrow> Inr (w\<lparr>reports := (reports w)(i \<mapsto> d)\<rparr>))"

definition updateReport :: "env \<Rightarrow> string \<Rightarrow> (report_doc \<Rightarrow> report_doc) \<Rightarrow> world \<Rightarrow> exn + world" where
  "updateReport ev i f w =
     (case fault ev WriteImagesDeleted of
        Some e \<Rightarrow> Inl e
      | None \<Rightarrow>
          (case reports w i of
             None \<Rightarrow> Inl (Error ''NOT_FOUND'')
           | Some d \<Rightarrow> Inr (w\<lparr>reports := (reports w)(i \<mapsto> f d)\<rparr>)))"

text \<open>Lines 219 to 227: from the request to the job, a reply, or a raise.\<close>

definition loadJob :: "env \<Rightarrow> request \<Rightarrow> world \<Rightarrow> exn + (response + string \<times> job)" where
  "loadJob ev req w =
     (case message req of
        None \<Rightarrow> Inr (Inl (200, ''no-message''))
      | Some msg \<Rightarrow>
     (case data msg of
        None \<Rightarrow> Inr (Inl (200, ''no-message''))
      | Some d \<Rightarrow>
     (if d = [] then Inr (Inl (200, ''no-message''))
      else
     (case parsePayload ev d of
        Inl e \<Rightarrow> Inl e
      | Inr v \<Rightarrow>
     (case getProp v ''jobId'' of
        Inl e \<Rightarrow> Inl e
      | Inr jobId \<Rightarrow>
     (case docRef jobId of
        Inl e \<Rightarrow> Inl e
      | Inr i \<Rightarrow>
     (case fault ev GetJob of
        Some e \<Rightarrow> Inl e
      | None \<Rightarrow>
     (case jobs w i of
        None \<Rightarrow> Inr (Inl (200, ''job-not-found''))
      | Some jb \<Rightarrow> Inr (Inr (i, jb))))))))))"

text \<open>\<^verbatim>\<open>job.userId || null\<close>.\<close>

definition ownerOf :: "job \<Rightarrow> string option" where
  "ownerOf jb = (case userId jb of Some u \<Rightarrow> (if u \<noteq> [] then Some u else None) | None \<Rightarrow> None)"

text \<open>Lines 263 to 289: the report, the purge, the final status.\<close>

definition finishJob :: "env \<Rightarrow> string \<Rightarrow> job \<Rightarrow> report \<Rightarrow> world \<Rightarrow> (exn + response) \<times> world" where
  "finishJob ev i jb reportJson w =
     (case setReport ev i
             \<lparr> doc_reportId = i, doc_userId = ownerOf jb, doc_jobId = i, json = reportJson,
               images_deleted = False \<rparr> w of
        Inl e \<Rightarrow> (Inl e, w)
      | Inr w1 \<Rightarrow>
          (let p = purgeImages ev (files jb);
               deleted = fst p;
               w2 = w1\<lparr>calls := calls w1 @ snd p\<rparr>
           in (case updateJob ev WriteComplete i
                       (\<lambda>j. j\<lparr>status := ''complete'', reportId := Some i,
                               warn := (if deleted then warn j
                                        else Some ''purge_failed_lifecycle_will_cleanup'')\<rparr>) w2 of
                 Inl e \<Rightarrow> (Inl e, w2)
               | Inr w3 \<Rightarrow>
                   (if deleted then
                      (case updateReport ev i (\<lambda>d. d\<lparr>images_deleted := True\<rparr>) w3 of
                         Inl e \<Rightarrow> (Inl e, w3)
                       | Inr w4 \<Rightarrow> (Inr (200, ''ok''), w4))
                    else (Inr (200, ''ok''), w3)))))"

text \<open>Lines 240 to 289.\<close>

definition processJob :: "env \<Rightarrow> string \<Rightarrow> job \<Rightarrow> world \<Rightarrow> (exn + response) \<times> world" where
  "processJob ev i jb w =
     (case updateJob ev WriteProcessing i (\<lambda>j. j\<lparr>status := ''processing''\<rparr>) w of
        Inl e \<Rightarrow> (Inl e, w)
      | Inr w1 \<Rightarrow>
          (let a = analysis ev jb;
               w2 = w1\<lparr>calls := calls w1 @ snd a\<rparr>
           in (case fst a of
                 Inl e \<Rightarrow> (Inl e, w2)
               | Inr reportJson \<Rightarrow> finishJob ev i jb reportJson w2)))"

text \<open>Lines 218 to 289, the body of the \<^verbatim>\<open>try\<close>.\<close>

definition tryBody :: "env \<Rightarrow> request \<Rightarrow> world \<Rightarrow> (exn + response) \<times> world" where
  "tryBody ev req w =
     (case loadJob ev req w of
        Inl e \<Rightarrow> (Inl e, w)
      | Inr (Inl reply) \<Rightarrow> (Inr reply, w)
      | Inr (Inr (i, jb)) \<Rightarrow>
          (let maxAllowed = maxForPlan ev (plan jb) in
           if maxAllowed < length (filesOr (files jb)) then
             (case updateJob ev WriteTooMany i
                     (\<lambda>j. j\<lparr>status := ''error'',
                             error := Some (ErrorObject ''too_many_files''
                               (''max '' @ numText ev (Fin (of_nat maxAllowed)) @ '' for plan''))\<rparr>) w of
                Inl e \<Rightarrow> (Inl e, w)
              | Inr w1 \<Rightarrow> (Inr (200, ''ok''), w1))
           else processJob ev i jb w))"

text \<open>\<^verbatim>\<open>String(e.message || e)\<close>.\<close>

definition errorText :: "exn \<Rightarrow> string" where
  "errorText e =
     (case e of
        TypeError m \<Rightarrow> (if m \<noteq> [] then m else ''TypeError'')
      | SyntaxError m \<Rightarrow> (if m \<noteq> [] then m else ''SyntaxError'')
      | Error m \<Rightarrow> (if m \<noteq> [] then m else ''Error''))"

text \<open>Lines 294 and 295: the job id, decoded again.\<close>

definition decodedJobId :: "env \<Rightarrow> request \<Rightarrow> exn + jsval" where
  "decodedJobId ev req =
     (case (case message req of
              None \<Rightarrow> Inr (JObj [])
            | Some msg \<Rightarrow>
                (case data msg of
                   None \<Rightarrow> Inr (JObj [])
                 | Some d \<Rightarrow> (if d \<noteq> [] then parsePayload ev d else Inr (JObj [])))) of
        Inl e \<Rightarrow> Inl e
      | Inr v \<Rightarrow> getProp v ''jobId'')"

text \<open>Lines 290 to 305, the \<^verbatim>\<open>catch\<close>: whatever raises inside it is dropped.\<close>

definition catchBlock :: "env \<Rightarrow> request \<Rightarrow> exn \<Rightarrow> world \<Rightarrow> response \<times> world" where
  "catchBlock ev req e w =
     ((200, ''ok''),
      (case decodedJobId ev req of
         Inl e' \<Rightarrow> w
       | Inr jobId \<Rightarrow>
           (if truthy jobId then
              (case docRef jobId of
                 Inl e' \<Rightarrow> w
               | Inr i \<Rightarrow>
                   (case updateJob ev WriteError i
                           (\<lambda>j. j\<lparr>status := ''error'',
                                   error := Some (ErrorText (take 500 (errorText e)))\<rparr>) w of
                      Inl e' \<Rightarrow> w
                    | Inr w1 \<Rightarrow> w1))
            else w)))"

definition handler :: "env \<Rightarrow> request \<Rightarrow> world \<Rightarrow> response \<times> world" where
  "handler ev req w =
     (case tryBody ev req w of
        (Inr reply, w1) \<Rightarrow> (reply, w1)
      | (Inl e, w1) \<Rightarrow> catchBlock ev req e w1)"

section \<open>Notions used in the properties\<close>

text \<open>A number within two bounds (so not \<^verbatim>\<open>NaN\<close>).\<close>

definition between :: "rat \<Rightarrow> rat \<Rightarrow> jsnum \<Rightarrow> bool" where
  "between lo hi x = (jsLessEq (Fin lo) x \<and> jsLessEq x (Fin hi))"

text \<open>A field that is absent, \<^verbatim>\<open>null\<close>, or of the type the schema of line 139 gives it.\<close>

definition numberOrAbsent :: "jsval \<Rightarrow> bool" where
  "numberOrAbsent v =
     (case v of JUndefined \<Rightarrow> True | JNull \<Rightarrow> True | JNum n \<Rightarrow> n \<noteq> NaN | _ \<Rightarrow> False)"

definition arrayOrAbsent :: "jsval \<Rightarrow> bool" where
  "arrayOrAbsent v =
     (case v of JUndefined \<Rightarrow> True | JNull \<Rightarrow> True | JArr xs \<Rightarrow> True | _ \<Rightarrow> False)"

definition textOrAbsent :: "jsval \<Rightarrow> bool" where
  "textOrAbsent v =
     (case v of JUndefined \<Rightarrow> True | JNull \<Rightarrow> True | JStr s \<Rightarrow> True | _ \<Rightarrow> False)"

definition objectOrAbsent :: "jsval \<Rightarrow> bool" where
  "objectOrAbsent v =
     (case v of JUndefined \<Rightarrow> True | JNull \<Rightarrow> True | JObj kvs \<Rightarrow> True | _ \<Rightarrow> False)"


definition suppliedTactics :: "jsval \<Rightarrow> jsval list" where
  "suppliedTactics raw = (case field raw ''tactics'' of JArr xs \<Rightarrow> xs | _ \<Rightarrow> [])"

text \<open>Line 111: the entries the average runs over.\<close>

definition seenOf :: "'a tactic_scored_scheme list \<Rightarrow> (string \<times> jsnum) list" where
  "seenOf ts =
     (if ts \<noteq> [] then map (\<lambda>t. (tactic_id t, score t)) ts else [(''other'', Fin 0)])"

text \<open>One number formatter, to run the normaliser at inputs that print no number.\<close>

definition sampleFormat :: "jsnum \<Rightarrow> string" where
  "sampleFormat n = ''0''"

text \<open>
  The sums of the average and of the contributions, as the specification writes them:
  \<open>\<Sigma>(score/100 \<sqdot> weight) / \<Sigma>(weight)\<close>, as a rounded percentage, and the share of
  \<open>score \<sqdot> weight\<close> in the sum of all of them.
\<close>

primrec jsSum :: "jsnum list \<Rightarrow> jsnum" where
  "jsSum [] = Fin 0"
| "jsSum (x # xs) = jsAdd x (jsSum xs)"

definition weightedRisk :: "(string \<times> jsnum) list \<Rightarrow> jsnum" where
  "weightedRisk seen =
     jsRound
       (jsMul (Fin 100)
          (jsDiv (jsSum (map (\<lambda>t. jsMul (jsDiv (snd t) (Fin 100)) (weightOf (fst t))) seen))
             (jsSum (map (\<lambda>t. weightOf (fst t)) seen))))"

definition weightedScore :: "'a tactic_scored_scheme \<Rightarrow> jsnum" where
  "weightedScore t = jsMul (score t) (weightOf (tactic_id t))"



text \<open>The rational a finite number stands for.\<close>

fun ratOf :: "jsnum \<Rightarrow> rat" where
  "ratOf (Fin q) = q"
| "ratOf x = 0"

text \<open>
  An input whose fields, where they are present, have the JSON type of the schema:
  numbers for the numeric fields, strings for id and name, an array for the examples,
  an object for the kpis, objects for the entries of the tactics.
\<close>

definition typedTactic :: "jsval \<Rightarrow> bool" where
  "typedTactic t =
     (case t of
        JObj kvs \<Rightarrow>
          textOrAbsent (field t ''id'') \<and> textOrAbsent (field t ''name'')
          \<and> numberOrAbsent (field t ''likelihood'') \<and> numberOrAbsent (field t ''p'')
          \<and> numberOrAbsent (field t ''severity'') \<and> numberOrAbsent (field t ''frequency'')
          \<and> arrayOrAbsent (field t ''examples'')
      | _ \<Rightarrow> False)"

definition typedReport :: "jsval \<Rightarrow> bool" where
  "typedReport raw =
     (case raw of
        JObj kvs \<Rightarrow>
          numberOrAbsent (field raw ''confidence'') \<and> objectOrAbsent (field raw ''kpis'')
          \<and> list_all typedTactic (suppliedTactics raw)
      | _ \<Rightarrow> False)"

text \<open>The contract of the normalised report (section 3 of the specification).\<close>

definition schemaValid :: "report \<Rightarrow> bool" where
  "schemaValid out =
     ((case risk_score out of
         Fin q \<Rightarrow> of_int \<lfloor>q\<rfloor> = q \<and> 0 \<le> q \<and> q \<le> 100
       | _ \<Rightarrow> False)
      \<and> between 0 1 (confidence out)
      \<and> length (receipts out) \<le> 30
      \<and> (case kpis out of JObj kvs \<Rightarrow> True | _ \<Rightarrow> False)
      \<and> (case narrative_md out of JNull \<Rightarrow> True | JStr s \<Rightarrow> s \<noteq> [] | _ \<Rightarrow> False))"

text \<open>
  Test doubles, to run the handler: services that answer (the classification with an
  empty object), a store that takes every call, limits of 3 and 15 files, and a deletion
  that succeeds for \<^verbatim>\<open>a\<close>, is refused for \<^verbatim>\<open>b\<close> and finds nothing for \<^verbatim>\<open>c\<close>; a job
  \<^verbatim>\<open>j1\<close> on the free plan with the given files, alone in the store; the message that
  names it.
\<close>

definition sampleEnv :: env where
  "sampleEnv =
     \<lparr> numText = sampleFormat,
       FREE_MAX = 3,
       PRO_MAX = 15,
       DEFAULT_INSTRUCTIONS = ''You are Toxella.'',
       parsePayload = (\<lambda>d. Inr (JObj [(''jobId'', JStr d)])),
       fault = (\<lambda>st. None),
       preprocessImageToBuffer = (\<lambda>p. Inr p),
       ocrBuffer = (\<lambda>b. Inr ''hello''),
       scrub = (\<lambda>t. t),
       openai = True,
       chatCompletion = (\<lambda>i t. Inr ''{}''),
       jsonParse = (\<lambda>t. Some (JObj [])),
       deleteFile =
         (\<lambda>p. if p = ''b'' then DeleteFailed (Error ''denied'')
              else if p = ''c'' then NotFound else Deleted) \<rparr>"

definition sampleJob :: "string list \<Rightarrow> job" where
  "sampleJob ps =
     \<lparr> plan = ''free'', files = Some (map (\<lambda>p. \<lparr>path = p\<rparr>) ps), userId = None,
       instructions = None, status = ''uploaded'', reportId = None, error = None,
       warn = None \<rparr>"

definition sampleWorld :: "string list \<Rightarrow> world" where
  "sampleWorld ps =
     \<lparr> jobs = (\<lambda>k. if k = ''j1'' then Some (sampleJob ps) else None),
       reports = (\<lambda>k. None),
       calls = [] \<rparr>"

definition sampleRequest :: request where
  "sampleRequest = \<lparr> message = Some \<lparr> data = Some ''j1'' \<rparr> \<rparr>"

section \<open>Clamping and scoring of one entry\<close>

lemma between_Fin [simp]: "between lo hi (Fin q) = (lo \<le> q \<and> q \<le> hi)"
  by (auto simp: between_def jsLessEq_def)

lemma between_cases: "between lo hi x \<Longrightarrow> \<exists>q. x = Fin q \<and> lo \<le> q \<and> q \<le> hi"
  by (cases x) (auto simp: between_def jsLessEq_def)

lemma clamp_between:
  "n \<noteq> NaN \<Longrightarrow> lo \<le> hi \<Longrightarrow> between lo hi (jsMax (Fin lo) (jsMin (Fin hi) n))"
  by (cases n) (auto simp: jsMax_def jsMin_def)


lemma upper_kept: "q \<le> hi \<Longrightarrow> jsMin (Fin hi) (Fin q) = Fin q"
  by (auto simp: jsMin_def)


lemma length_of_array: "field (JArr xs) ''length'' = JNum (Fin (of_nat (length xs)))"
  by (simp add: field_def)

lemma toNumber_JNum [simp]: "toNumber fmt (JNum n) = Inr n"
  by (simp add: toNumber_def)

lemma clamp_JNum:
  "clamp fmt (JNum n) lo hi = Inr (jsMax lo (jsMin hi (if n = NaN then Fin 0 else n)))"
  by (auto simp: clamp_def jsOr_def)


lemma fields_withScore [simp]:
  "tactic_id (withScore t s) = tactic_id t"
  "name (withScore t s) = name t"
  "likelihood (withScore t s) = likelihood t"
  "severity (withScore t s) = severity t"
  "frequency (withScore t s) = frequency t"
  "examples (withScore t s) = examples t"
  "score (withScore t s) = s"
  by (simp_all add: withScore_def tactic_obj.defs tactic_scored.defs)

lemma fields_withContribution [simp]:
  "tactic_id (withContribution t c) = tactic_id t"
  "name (withContribution t c) = name t"
  "likelihood (withContribution t c) = likelihood t"
  "severity (withContribution t c) = severity t"
  "frequency (withContribution t c) = frequency t"
  "examples (withContribution t c) = examples t"
  "score (withContribution t c) = score t"
  "contribution_pct (withContribution t c) = c"
  by (simp_all add: withContribution_def tactic_scored.defs tactic_out.defs)

text \<open>
  \<open>tacticScore\<close> never raises: its argument holds numbers. A \<^verbatim>\<open>NaN\<close> likelihood or
  severity counts as 0 there (\<^verbatim>\<open>n||0\<close>), a \<^verbatim>\<open>NaN\<close> frequency stays.
\<close>

lemma tacticScore_eq:
  "tacticScore fmt t =
     Inr (jsRound
            (jsAdd
               (jsAdd
                  (jsMul (Fin 40)
                     (jsMax (Fin 0)
                        (jsMin (Fin 1) (if likelihood t = NaN then Fin 0 else likelihood t))))
                  (jsMul (Fin 35)
                     (jsDiv
                        (jsSub
                           (jsMax (Fin 1)
                              (jsMin (Fin 5) (if severity t = NaN then Fin 0 else severity t)))
                           (Fin 1))
                        (Fin 4))))
               (jsMul (Fin 25) (jsMin (Fin 1) (jsDiv (jsMin (Fin 5) (frequency t)) (Fin 5))))))"
  by (simp add: tacticScore_def clamp_JNum jsCoalesce_def)

lemma normalizeTactic_Inr:
  assumes "normalizeTactic fmt t = Inr obj"
  obtains s lk sv fq where
    "\<not> nullish t"
    "toStr fmt (jsOr (field t ''id'') (jsOr (field t ''name'') (JStr []))) = Inr s"
    "clamp fmt
       (jsCoalesce (field t ''likelihood'') (jsCoalesce (field t ''p'') (JNum (Fin 0))))
       (Fin 0) (Fin 1) = Inr lk"
    "clamp fmt (jsCoalesce (field t ''severity'') (JNum (Fin 3))) (Fin 1) (Fin 5) = Inr sv"
    "toNumber fmt
       (jsCoalesce (field t ''frequency'')
          (jsOr (optField (field t ''examples'') ''length'') (JNum (Fin 0)))) = Inr fq"
    "likelihood obj = lk" "severity obj = sv" "frequency obj = jsMax (Fin 0) (jsMin (Fin 5) fq)"
    "examples obj = (case field t ''examples'' of JArr xs \<Rightarrow> take 5 xs | _ \<Rightarrow> [])"
    "tactic_id obj =
       (if toLowerCase s \<noteq> [] \<and> toLowerCase s \<in> set TACTIC_IDS then toLowerCase s
        else ''other'')"
    "tacticScore fmt obj = Inr (score obj)"
  using assms
  unfolding normalizeTactic_def getProp_def Let_def
  by (auto split: sum.splits if_splits simp: tacticScore_eq)

lemma score_between:
  assumes "between 0 1 l" "between 1 5 s" "between 0 5 f"
  shows "between 0 100
     (jsRound (jsAdd (jsAdd (jsMul (Fin 40) l) (jsMul (Fin 35) (jsDiv (jsSub s (Fin 1)) (Fin 4))))
                (jsMul (Fin 25) (jsMin (Fin 1) (jsDiv f (Fin 5))))))"
proof -
  obtain a where a: "l = Fin a" "0 \<le> a" "a \<le> 1" using between_cases[OF assms(1)] by auto
  obtain b where b: "s = Fin b" "1 \<le> b" "b \<le> 5" using between_cases[OF assms(2)] by auto
  obtain c where c: "f = Fin c" "0 \<le> c" "c \<le> 5" using between_cases[OF assms(3)] by auto
  have m: "jsMin (Fin 1) (Fin (c / 5)) = Fin (min 1 (c / 5))"
    by (auto simp: jsMin_def)
  define x where "x = 40 * a + 35 * ((b - 1) / 4) + 25 * min 1 (c / 5)"
  have "0 \<le> 40 * a" "0 \<le> 35 * ((b - 1) / 4)" "0 \<le> 25 * min 1 (c / 5)"
    using a b c by auto
  then have x0: "0 \<le> x" unfolding x_def by linarith
  have "40 * a \<le> 40" "35 * ((b - 1) / 4) \<le> 35" "25 * min 1 (c / 5) \<le> 25"
    using a b c by auto
  then have x1: "x \<le> 100" unfolding x_def by linarith
  have "0 \<le> \<lfloor>x + 1 / 2\<rfloor>" using x0 by simp
  moreover have "\<lfloor>x + 1 / 2\<rfloor> \<le> 100" using x1 by (simp add: floor_le_iff)
  ultimately have
    "0 \<le> (of_int \<lfloor>x + 1 / 2\<rfloor> :: rat) \<and> (of_int \<lfloor>x + 1 / 2\<rfloor> :: rat) \<le> 100"
    by (metis of_int_0_le_iff of_int_le_iff of_int_numeral)
  then show ?thesis
    using a b c by (simp add: jsSub_def m x_def)
qed

lemmas evalNumber =
  strToNumber_def trim_def isWhite_def radixLiteral_def unsignedDecimal_def isDigit_def
  digitOf_def exponentOf_def digitsIn_def

lemmas evalReport =
  normalizeReport_def normalizeTactic_def getProp_def field_def optField_def jsOr_def
  jsCoalesce_def clamp_def toNumber_def tacticScore_eq accumulate_def contribution_def
  weightOf_def RISK_WEIGHTS_def TACTIC_IDS_def toLowerCase_def toLowerChar_def riskLabel_def
  jsMax_def jsMin_def jsSub_def jsLessEq_def jsGreater_def Let_def




section \<open>The report as a whole\<close>

lemma mapE_Inr:
  "mapE f xs = Inr ys \<Longrightarrow> list_all2 (\<lambda>x y. f x = Inr y) xs ys"
  by (induction xs arbitrary: ys) (auto split: sum.splits)

text \<open>What a report that is returned holds, field by field.\<close>

lemma normalizeReport_Inr:
  assumes "normalizeReport fmt raw = Inr out"
  obtains ts where
    "\<not> nullish raw"
    "clamp fmt (jsCoalesce (field raw ''confidence'') (JNum (Fin (85 / 100)))) (Fin 0) (Fin 1)
       = Inr (confidence out)"
    "mapE (normalizeTactic fmt) (suppliedTactics raw) = Inr ts"
    "tactics out =
       map (contribution (snd (snd (fold accumulate (seenOf ts) (Fin 0, Fin 0, Fin 0))))) ts"
    "risk_score out =
       (let st = fold accumulate (seenOf ts) (Fin 0, Fin 0, Fin 0) in
        jsRound (jsMul (Fin 100)
          (if truthy (JNum (fst (snd st))) then jsDiv (fst st) (fst (snd st)) else Fin 0)))"
    "risk_label out = jsOr (field raw ''risk_label'') (JStr (riskLabel (risk_score out)))"
    "receipts out =
       (case field raw ''receipts'' of
          JArr xs \<Rightarrow> take 30 xs
        | r \<Rightarrow> (case optField r ''highlights'' of JArr hs \<Rightarrow> take 30 hs | _ \<Rightarrow> []))"
    "kpis out = jsOr (field raw ''kpis'') (JObj [])"
    "narrative_md out =
       (case field raw ''narrative_md'' of
          JStr s \<Rightarrow> (if truthy (JStr (trim s)) then JStr s else JNull)
        | _ \<Rightarrow> JNull)"
proof -
  from assms have nn: "\<not> nullish raw"
    by (auto simp: normalizeReport_def getProp_def split: if_splits)
  from assms nn obtain conf where
    c: "clamp fmt (jsCoalesce (field raw ''confidence'') (JNum (Fin (85 / 100)))) (Fin 0) (Fin 1)
          = Inr conf"
    by (cases "clamp fmt (jsCoalesce (field raw ''confidence'') (JNum (Fin (85 / 100))))
                 (Fin 0) (Fin 1)")
       (auto simp: normalizeReport_def getProp_def)
  from assms nn c obtain ts where
    t: "mapE (normalizeTactic fmt) (suppliedTactics raw) = Inr ts"
    by (cases "mapE (normalizeTactic fmt) (suppliedTactics raw)")
       (auto simp: normalizeReport_def getProp_def suppliedTactics_def Let_def)
  from assms nn c t have
    "out = \<lparr> risk_score =
               (let st = fold accumulate (seenOf ts) (Fin 0, Fin 0, Fin 0) in
                jsRound (jsMul (Fin 100)
                  (if truthy (JNum (fst (snd st))) then jsDiv (fst st) (fst (snd st))
                   else Fin 0))),
             risk_label = jsOr (field raw ''risk_label'')
               (JStr (riskLabel
                 (let st = fold accumulate (seenOf ts) (Fin 0, Fin 0, Fin 0) in
                  jsRound (jsMul (Fin 100)
                    (if truthy (JNum (fst (snd st))) then jsDiv (fst st) (fst (snd st))
                     else Fin 0))))),
             confidence = conf,
             tactics =
               map (contribution (snd (snd (fold accumulate (seenOf ts) (Fin 0, Fin 0, Fin 0)))))
                 ts,
             receipts =
               (case field raw ''receipts'' of
                  JArr xs \<Rightarrow> take 30 xs
                | r \<Rightarrow> (case optField r ''highlights'' of JArr hs \<Rightarrow> take 30 hs | _ \<Rightarrow> [])),
             kpis = jsOr (field raw ''kpis'') (JObj []),
             narrative_md =
               (case field raw ''narrative_md'' of
                  JStr s \<Rightarrow> (if truthy (JStr (trim s)) then JStr s else JNull)
                | _ \<Rightarrow> JNull) \<rparr>"
    by (simp add: normalizeReport_def getProp_def suppliedTactics_def seenOf_def Let_def)
  then show thesis
    using that[of ts] nn c t by (simp add: Let_def)
qed

text \<open>
  C6, amended. For every input whose report is returned, the output confidence is 0.85
  when the supplied confidence is absent or null, and is the supplied confidence clamped
  to [0,1] when that is a number.
\<close>

theorem confidence_default_and_clamp:
  assumes "normalizeReport fmt raw = Inr out"
  shows "(nullish (field raw ''confidence'') \<longrightarrow> confidence out = Fin (85 / 100))
    \<and> (\<forall>n. field raw ''confidence'' = JNum n \<and> n \<noteq> NaN \<longrightarrow>
          confidence out = jsMax (Fin 0) (jsMin (Fin 1) n) \<and> between 0 1 (confidence out))"
proof -
  from assms have
    c: "clamp fmt (jsCoalesce (field raw ''confidence'') (JNum (Fin (85 / 100)))) (Fin 0) (Fin 1)
          = Inr (confidence out)"
    by (rule normalizeReport_Inr)
  have A: "nullish (field raw ''confidence'') \<longrightarrow> confidence out = Fin (85 / 100)"
    using c by (auto simp: jsCoalesce_def clamp_JNum jsMax_def jsMin_def)
  have B: "\<forall>n. field raw ''confidence'' = JNum n \<and> n \<noteq> NaN \<longrightarrow>
          confidence out = jsMax (Fin 0) (jsMin (Fin 1) n) \<and> between 0 1 (confidence out)"
  proof (intro allI impI)
    fix n
    assume h: "field raw ''confidence'' = JNum n \<and> n \<noteq> NaN"
    then have e: "confidence out = jsMax (Fin 0) (jsMin (Fin 1) n)"
      using c by (auto simp: jsCoalesce_def clamp_JNum)
    show "confidence out = jsMax (Fin 0) (jsMin (Fin 1) n) \<and> between 0 1 (confidence out)"
      unfolding e using h clamp_between[of n 0 1] by simp
  qed
  show ?thesis using A B by blast
qed

text \<open>A confidence of 1.5 comes out as 1, a null confidence as 0.85.\<close>

theorem confidence_default_and_clamp_witness:
  "map_sum id confidence
      (normalizeReport sampleFormat (JObj [(''confidence'', JNum (Fin (3 / 2)))])) = Inr (Fin 1)
   \<and> map_sum id confidence (normalizeReport sampleFormat (JObj [(''confidence'', JNull)]))
       = Inr (Fin (85 / 100))"
proof -
  obtain o1 where
    o1: "normalizeReport sampleFormat (JObj [(''confidence'', JNum (Fin (3 / 2)))]) = Inr o1"
    by (simp add: evalReport)
  obtain o2 where o2: "normalizeReport sampleFormat (JObj [(''confidence'', JNull)]) = Inr o2"
    by (simp add: evalReport)
  show ?thesis
    using confidence_default_and_clamp[OF o1] confidence_default_and_clamp[OF o2] o1 o2
    by (simp add: field_def jsMax_def jsMin_def)
qed

text \<open>
  A confidence that is the text \<^verbatim>\<open>high\<close> is not replaced by 0.85: it comes out as
  \<^verbatim>\<open>NaN\<close>.
\<close>

theorem confidence_text_counterexample:
  "map_sum id confidence (normalizeReport sampleFormat (JObj [(''confidence'', JStr ''high'')]))
     = Inr NaN"
  by (simp add: evalReport evalNumber)

text \<open>
  C10. The normaliser neither bounds, nor filters, nor deduplicates the tactics: when the
  report is returned, its tactics are as many as the supplied ones, the entry at each
  position being the normalised supplied entry of that position (with its
  contribution); the supplied tactics are the elements of the \<^verbatim>\<open>tactics\<close> field when that
  is an array, and when it is not an array the output has no tactics.
\<close>

theorem tactics_kept_in_order:
  assumes "normalizeReport fmt raw = Inr out"
  shows "length (tactics out) = length (suppliedTactics raw)
    \<and> (\<forall>k < length (suppliedTactics raw).
          \<exists>obj c. normalizeTactic fmt (suppliedTactics raw ! k) = Inr obj
                 \<and> tactics out ! k = withContribution obj c)
    \<and> (\<forall>xs. field raw ''tactics'' = JArr xs \<longrightarrow> suppliedTactics raw = xs)
    \<and> (\<not> isArray (field raw ''tactics'') \<longrightarrow> tactics out = [])"
proof -
  from assms obtain ts where
    m: "mapE (normalizeTactic fmt) (suppliedTactics raw) = Inr ts"
    and t: "tactics out =
       map (contribution (snd (snd (fold accumulate (seenOf ts) (Fin 0, Fin 0, Fin 0))))) ts"
    by (rule normalizeReport_Inr)
  have l2: "list_all2 (\<lambda>x y. normalizeTactic fmt x = Inr y) (suppliedTactics raw) ts"
    by (rule mapE_Inr[OF m])
  then have len: "length ts = length (suppliedTactics raw)"
    by (simp add: list_all2_lengthD)
  have A: "length (tactics out) = length (suppliedTactics raw)"
    using t len by simp
  have B: "\<forall>k < length (suppliedTactics raw).
          \<exists>obj c. normalizeTactic fmt (suppliedTactics raw ! k) = Inr obj
                 \<and> tactics out ! k = withContribution obj c"
  proof (intro allI impI)
    fix k
    assume k: "k < length (suppliedTactics raw)"
    have "normalizeTactic fmt (suppliedTactics raw ! k) = Inr (ts ! k)"
      using l2 k by (simp add: list_all2_conv_all_nth)
    moreover have "\<exists>c. tactics out ! k = withContribution (ts ! k) c"
      using t k len by (auto simp: contribution_def Let_def)
    ultimately show "\<exists>obj c. normalizeTactic fmt (suppliedTactics raw ! k) = Inr obj
                 \<and> tactics out ! k = withContribution obj c"
      by blast
  qed
  have C: "\<forall>xs. field raw ''tactics'' = JArr xs \<longrightarrow> suppliedTactics raw = xs"
    by (simp add: suppliedTactics_def)
  have D: "\<not> isArray (field raw ''tactics'') \<longrightarrow> tactics out = []"
    using A by (cases "field raw ''tactics''") (auto simp: suppliedTactics_def isArray_def)
  show ?thesis using A B C D by blast
qed

text \<open>Three entries, two of them with the same id: three entries come out, in that order.\<close>

theorem tactics_kept_in_order_witness:
  "\<exists>out. normalizeReport sampleFormat
       (JObj [(''tactics'',
               JArr [JObj [(''id'', JStr ''threats'')], JObj [(''id'', JStr ''sarcasm'')],
                     JObj [(''id'', JStr ''threats'')]])]) = Inr out
     \<and> length (tactics out) = 3
     \<and> map tactic_id (tactics out) = [''threats'', ''other'', ''threats'']"
proof -
  let ?raw = "JObj [(''tactics'',
               JArr [JObj [(''id'', JStr ''threats'')], JObj [(''id'', JStr ''sarcasm'')],
                     JObj [(''id'', JStr ''threats'')]])]"
  obtain out where r: "normalizeReport sampleFormat ?raw = Inr out"
    by (simp add: evalReport)
  have "length (tactics out) = length (suppliedTactics ?raw)"
    using tactics_kept_in_order[OF r] by (rule conjunct1)
  then have len: "length (tactics out) = 3"
    by (simp add: suppliedTactics_def field_def)
  have "map_sum id (\<lambda>out. map tactic_id (tactics out))
       (normalizeReport sampleFormat ?raw) = Inr [''threats'', ''other'', ''threats'']"
    by (simp add: evalReport)
  then have ids: "map tactic_id (tactics out) = [''threats'', ''other'', ''threats'']"
    unfolding r by simp
  show ?thesis
    by (rule exI[of _ out]) (simp only: r len ids simp_thms)
qed

text \<open>
  C4. When the report is returned: a supplied risk label (a truthy value, as line 120
  tests it) is passed through as it is; otherwise the label is derived from the risk
  score, scores below 34 being low, scores from 34 to 66 medium, scores above 66 high.
\<close>

theorem label_passed_or_derived:
  assumes "normalizeReport fmt raw = Inr out"
  shows "(truthy (field raw ''risk_label'') \<longrightarrow> risk_label out = field raw ''risk_label'')
    \<and> (\<not> truthy (field raw ''risk_label'') \<longrightarrow>
          risk_label out = JStr (riskLabel (risk_score out)))
    \<and> (jsLess s (Fin 34) \<longrightarrow> riskLabel s = ''low'')
    \<and> (jsLessEq (Fin 34) s \<and> jsLessEq s (Fin 66) \<longrightarrow> riskLabel s = ''medium'')
    \<and> (jsGreater s (Fin 66) \<longrightarrow> riskLabel s = ''high'')
    \<and> riskLabel (Fin 33) = ''low'' \<and> riskLabel (Fin 34) = ''medium''
    \<and> riskLabel (Fin 66) = ''medium'' \<and> riskLabel (Fin 67) = ''high''"
proof -
  from assms have
    l: "risk_label out = jsOr (field raw ''risk_label'') (JStr (riskLabel (risk_score out)))"
    by (rule normalizeReport_Inr)
  have A: "truthy (field raw ''risk_label'') \<longrightarrow> risk_label out = field raw ''risk_label''"
    using l by (simp add: jsOr_def)
  have B: "\<not> truthy (field raw ''risk_label'') \<longrightarrow>
          risk_label out = JStr (riskLabel (risk_score out))"
    using l by (simp add: jsOr_def)
  have C: "jsLess s (Fin 34) \<longrightarrow> riskLabel s = ''low''"
    by (simp add: riskLabel_def)
  have D: "jsLessEq (Fin 34) s \<and> jsLessEq s (Fin 66) \<longrightarrow> riskLabel s = ''medium''"
    by (cases s) (auto simp: riskLabel_def jsLessEq_def)
  have E: "jsGreater s (Fin 66) \<longrightarrow> riskLabel s = ''high''"
    by (cases s) (auto simp: riskLabel_def jsLessEq_def jsGreater_def)
  have F: "riskLabel (Fin 33) = ''low'' \<and> riskLabel (Fin 34) = ''medium''
    \<and> riskLabel (Fin 66) = ''medium'' \<and> riskLabel (Fin 67) = ''high''"
    by (simp add: riskLabel_def jsLessEq_def)
  show ?thesis using A B C D E F by blast
qed

text \<open>The label \<^verbatim>\<open>critical\<close> is kept; an empty label gives way to the derived one.\<close>

theorem label_passed_or_derived_witness:
  "map_sum id risk_label
     (normalizeReport sampleFormat (JObj [(''risk_label'', JStr ''critical'')]))
     = Inr (JStr ''critical'')
   \<and> map_sum id risk_label (normalizeReport sampleFormat (JObj [(''risk_label'', JStr [])]))
     = Inr (JStr ''low'')"
proof -
  let ?r1 = "JObj [(''risk_label'', JStr ''critical'')]"
  let ?r2 = "JObj [(''risk_label'', JStr [])]"
  obtain o1 where o1: "normalizeReport sampleFormat ?r1 = Inr o1"
    by (simp add: evalReport)
  obtain o2 where o2: "normalizeReport sampleFormat ?r2 = Inr o2"
    by (simp add: evalReport)
  have "map_sum id risk_score (normalizeReport sampleFormat ?r2) = Inr (Fin 0)"
    by (simp add: evalReport floor_eq_iff)
  then have s2: "risk_score o2 = Fin 0"
    unfolding o2 by simp
  have f1: "field ?r1 ''risk_label'' = JStr ''critical''"
    by (simp add: field_def)
  have f2: "field ?r2 ''risk_label'' = JStr []"
    by (simp add: field_def)
  have "truthy (field ?r1 ''risk_label'') \<longrightarrow> risk_label o1 = field ?r1 ''risk_label''"
    using label_passed_or_derived[OF o1, of "Fin 0"] by blast
  then have l1: "risk_label o1 = JStr ''critical''"
    unfolding f1 by simp
  have "\<not> truthy (field ?r2 ''risk_label'') \<longrightarrow> risk_label o2 = JStr (riskLabel (risk_score o2))"
    using label_passed_or_derived[OF o2, of "Fin 0"] by blast
  then have l2: "risk_label o2 = JStr ''low''"
    unfolding f2 s2 by (simp add: riskLabel_def)
  show ?thesis
    unfolding o1 o2 by (simp add: l1 l2)
qed

section \<open>The weighted average\<close>

text \<open>
  The loop of lines 113 to 118 adds from the left, starting at 0; in the arithmetic of
  numbers with \<^verbatim>\<open>NaN\<close> and infinities that is the sum of the list.
\<close>

lemma jsAdd_assoc: "jsAdd (jsAdd x y) z = jsAdd x (jsAdd y z)"
  by (cases x; cases y; cases z; simp)

lemma jsAdd_zero [simp]: "jsAdd (Fin 0) y = y"
  by (cases y) simp_all

lemma accumulate_step:
  "accumulate t (n, d, s) =
     (jsAdd n (jsMul (jsDiv (snd t) (Fin 100)) (weightOf (fst t))),
      jsAdd d (weightOf (fst t)),
      jsAdd s (jsMul (snd t) (weightOf (fst t))))"
  by (simp add: accumulate_def Let_def)

lemma fold_accumulate:
  "fold accumulate seen (n, d, s) =
     (jsAdd n (jsSum (map (\<lambda>t. jsMul (jsDiv (snd t) (Fin 100)) (weightOf (fst t))) seen)),
      jsAdd d (jsSum (map (\<lambda>t. weightOf (fst t)) seen)),
      jsAdd s (jsSum (map (\<lambda>t. jsMul (snd t) (weightOf (fst t))) seen)))"
proof (induction seen arbitrary: n d s)
  case Nil
  show ?case by (cases n; cases d; cases s; simp)
next
  case (Cons t seen)
  show ?case
    by (simp add: accumulate_step Cons.IH jsAdd_assoc)
qed

lemma weights_positive: "list_all (\<lambda>kv. 0 < snd kv) RISK_WEIGHTS"
  by (simp add: RISK_WEIGHTS_def)

lemma map_of_pos: "list_all (\<lambda>kv. 0 < snd kv) kvs \<Longrightarrow> map_of kvs i = Some w \<Longrightarrow> (0::rat) < w"
  by (induction kvs) (auto split: if_splits)

lemma weightOf_pos: "\<exists>w. weightOf i = Fin w \<and> 0 < w"
proof (cases "map_of RISK_WEIGHTS i")
  case None
  then show ?thesis by (simp add: weightOf_def)
next
  case (Some w)
  then have "0 < w" using map_of_pos[OF weights_positive] by blast
  then show ?thesis using Some by (simp add: weightOf_def)
qed




lemma weights_sum_pos:
  "seen \<noteq> [] \<Longrightarrow> \<exists>q. jsSum (map (\<lambda>t. weightOf (fst t)) seen) = Fin q \<and> 0 < q"
proof (induction seen)
  case Nil
  then show ?case by simp
next
  case (Cons t seen)
  obtain w where w: "weightOf (fst t) = Fin w" "0 < w" using weightOf_pos by blast
  show ?case
  proof (cases "seen = []")
    case True
    then show ?thesis using w by simp
  next
    case False
    then obtain q where "jsSum (map (\<lambda>t. weightOf (fst t)) seen) = Fin q" "0 < q"
      using Cons.IH by blast
    then show ?thesis using w by simp
  qed
qed

lemma jsAdd_NaN [simp]: "jsAdd x NaN = NaN"
  by (cases x) simp_all

lemma jsMul_NaN [simp]: "jsMul x NaN = NaN"
  by (cases x) simp_all

lemma seenOf_contribution: "seenOf (map (contribution S) ts) = seenOf ts"
  by (simp add: seenOf_def contribution_def Let_def comp_def)

lemma risk_score_eq:
  assumes "normalizeReport fmt raw = Inr out"
  shows "risk_score out = weightedRisk (seenOf (tactics out))"
proof -
  from assms obtain ts where
    t: "tactics out =
       map (contribution (snd (snd (fold accumulate (seenOf ts) (Fin 0, Fin 0, Fin 0))))) ts"
    and r: "risk_score out =
       (let st = fold accumulate (seenOf ts) (Fin 0, Fin 0, Fin 0) in
        jsRound (jsMul (Fin 100)
          (if truthy (JNum (fst (snd st))) then jsDiv (fst st) (fst (snd st)) else Fin 0)))"
    by (rule normalizeReport_Inr)
  have s: "seenOf (tactics out) = seenOf ts"
    unfolding t by (rule seenOf_contribution)
  have ne: "seenOf ts \<noteq> []"
    by (simp add: seenOf_def)
  obtain q where q: "jsSum (map (\<lambda>t. weightOf (fst t)) (seenOf ts)) = Fin q" "0 < q"
    using weights_sum_pos[OF ne] by blast
  show ?thesis
    unfolding s r weightedRisk_def fold_accumulate Let_def
    using q by simp
qed

lemma tacticScore_integer:
  assumes "tacticScore fmt t = Inr sc"
    and f: "between 0 5 (frequency t)"
  shows "\<exists>z. sc = Fin (of_int z) \<and> 0 \<le> z \<and> z \<le> 100"
proof -
  obtain c where c: "frequency t = Fin c" "0 \<le> c" "c \<le> 5"
    using between_cases[OF f] by blast
  let ?l = "jsMax (Fin 0) (jsMin (Fin 1) (if likelihood t = NaN then Fin 0 else likelihood t))"
  let ?s = "jsMax (Fin 1) (jsMin (Fin 5) (if severity t = NaN then Fin 0 else severity t))"
  have l: "between 0 1 ?l" by (rule clamp_between) auto
  have s: "between 1 5 ?s" by (rule clamp_between) auto
  have e: "sc = jsRound (jsAdd (jsAdd (jsMul (Fin 40) ?l)
                (jsMul (Fin 35) (jsDiv (jsSub ?s (Fin 1)) (Fin 4))))
                (jsMul (Fin 25) (jsMin (Fin 1) (jsDiv (frequency t) (Fin 5)))))"
    using assms(1) c unfolding tacticScore_eq by (simp add: upper_kept)
  have b: "between 0 100 sc"
    unfolding e by (rule score_between[OF l s f])
  obtain a where a: "?l = Fin a" using between_cases[OF l] by blast
  obtain d where d: "?s = Fin d" using between_cases[OF s] by blast
  have "\<exists>z. sc = Fin (of_int z)"
    unfolding e a d c by (simp add: jsSub_def jsMin_def)
  then obtain z where z: "sc = Fin (of_int z)" by blast
  have "0 \<le> z \<and> z \<le> 100"
    using b unfolding z by simp
  then show ?thesis using z by blast
qed








section \<open>Totality on typed input\<close>

lemma coalesce_number:
  "numberOrAbsent a \<Longrightarrow> \<exists>n. jsCoalesce a (JNum (Fin d)) = JNum n \<and> n \<noteq> NaN"
  by (cases a) (auto simp: numberOrAbsent_def jsCoalesce_def)

lemma coalesce_number2:
  "numberOrAbsent a \<Longrightarrow> numberOrAbsent b \<Longrightarrow>
     \<exists>n. jsCoalesce a (jsCoalesce b (JNum (Fin d))) = JNum n \<and> n \<noteq> NaN"
  by (cases a; cases b) (auto simp: numberOrAbsent_def jsCoalesce_def)

lemma frequency_number:
  "numberOrAbsent a \<Longrightarrow> arrayOrAbsent ex \<Longrightarrow>
     \<exists>n. jsCoalesce a (jsOr (optField ex ''length'') (JNum (Fin 0))) = JNum n \<and> n \<noteq> NaN"
  by (cases a; cases ex)
     (auto simp: numberOrAbsent_def arrayOrAbsent_def jsCoalesce_def jsOr_def optField_def
        length_of_array)

lemma id_text:
  "textOrAbsent a \<Longrightarrow> textOrAbsent b \<Longrightarrow> \<exists>s. jsOr a (jsOr b (JStr [])) = JStr s"
  by (cases a; cases b) (auto simp: textOrAbsent_def jsOr_def)

lemma clamp_number:
  "n \<noteq> NaN \<Longrightarrow> lo \<le> hi \<Longrightarrow>
     \<exists>x. clamp fmt (JNum n) (Fin lo) (Fin hi) = Inr x \<and> between lo hi x"
  by (simp add: clamp_JNum clamp_between)

lemma typedTactic_returns:
  assumes "typedTactic t"
  shows "\<exists>obj. normalizeTactic fmt t = Inr obj
           \<and> (\<exists>z. score obj = Fin (of_int z) \<and> 0 \<le> z \<and> z \<le> 100)"
proof -
  from assms obtain kvs where kv: "t = JObj kvs"
    by (cases t) (auto simp: typedTactic_def)
  from assms have ty:
    "textOrAbsent (field t ''id'')" "textOrAbsent (field t ''name'')"
    "numberOrAbsent (field t ''likelihood'')" "numberOrAbsent (field t ''p'')"
    "numberOrAbsent (field t ''severity'')" "numberOrAbsent (field t ''frequency'')"
    "arrayOrAbsent (field t ''examples'')"
    unfolding kv typedTactic_def by simp_all
  have g: "getProp t ''id'' = Inr (field t ''id'')"
    unfolding kv by (simp add: getProp_def)
  obtain s where s: "jsOr (field t ''id'') (jsOr (field t ''name'') (JStr [])) = JStr s"
    using id_text[OF ty(1,2)] by blast
  obtain l where l: "jsCoalesce (field t ''likelihood'') (jsCoalesce (field t ''p'') (JNum (Fin 0)))
      = JNum l" "l \<noteq> NaN"
    using coalesce_number2[OF ty(3,4)] by blast
  obtain v where v: "jsCoalesce (field t ''severity'') (JNum (Fin 3)) = JNum v" "v \<noteq> NaN"
    using coalesce_number[OF ty(5)] by blast
  obtain f where f: "jsCoalesce (field t ''frequency'')
      (jsOr (optField (field t ''examples'') ''length'') (JNum (Fin 0))) = JNum f" "f \<noteq> NaN"
    using frequency_number[OF ty(6,7)] by blast
  obtain lk where lk: "clamp fmt (JNum l) (Fin 0) (Fin 1) = Inr lk"
    using clamp_number[OF l(2), of 0 1] by auto
  obtain sv where sv: "clamp fmt (JNum v) (Fin 1) (Fin 5) = Inr sv"
    using clamp_number[OF v(2), of 1 5] by auto
  have "\<exists>obj. normalizeTactic fmt t = Inr obj"
    by (simp add: normalizeTactic_def g s l v f lk sv tacticScore_eq Let_def)
  then obtain obj where obj: "normalizeTactic fmt t = Inr obj" by blast
  from obj obtain fq where
    fq: "toNumber fmt (jsCoalesce (field t ''frequency'')
          (jsOr (optField (field t ''examples'') ''length'') (JNum (Fin 0)))) = Inr fq"
    and fo: "frequency obj = jsMax (Fin 0) (jsMin (Fin 5) fq)"
    and sc: "tacticScore fmt obj = Inr (score obj)"
    by (rule normalizeTactic_Inr)
  have "fq = f" using fq unfolding f by simp
  then have "between 0 5 (frequency obj)"
    unfolding fo using clamp_between[OF f(2), of 0 5] by simp
  then have "\<exists>z. score obj = Fin (of_int z) \<and> 0 \<le> z \<and> z \<le> 100"
    by (rule tacticScore_integer[OF sc])
  then show ?thesis using obj by blast
qed

lemma typed_mapE:
  "list_all typedTactic xs \<Longrightarrow>
     \<exists>ts. mapE (normalizeTactic fmt) xs = Inr ts
        \<and> list_all (\<lambda>t. \<exists>z. score t = Fin (of_int z) \<and> 0 \<le> z \<and> z \<le> 100) ts"
proof (induction xs)
  case Nil
  then show ?case by simp
next
  case (Cons x xs)
  then obtain ts where ts: "mapE (normalizeTactic fmt) xs = Inr ts"
      "list_all (\<lambda>t. \<exists>z. score t = Fin (of_int z) \<and> 0 \<le> z \<and> z \<le> 100) ts"
    by auto
  from Cons.prems obtain obj where obj: "normalizeTactic fmt x = Inr obj"
      "\<exists>z. score obj = Fin (of_int z) \<and> 0 \<le> z \<and> z \<le> 100"
    using typedTactic_returns[of x fmt] by auto
  show ?case using ts obj by simp
qed

lemma average_sums:
  "list_all (\<lambda>t. \<exists>q. snd t = Fin q \<and> 0 \<le> q \<and> q \<le> 100) seen \<Longrightarrow>
     \<exists>a b. jsSum (map (\<lambda>t. jsMul (jsDiv (snd t) (Fin 100)) (weightOf (fst t))) seen) = Fin a
          \<and> jsSum (map (\<lambda>t. weightOf (fst t)) seen) = Fin b \<and> 0 \<le> a \<and> a \<le> b"
proof (induction seen)
  case Nil
  then show ?case by simp
next
  case (Cons t seen)
  then obtain a b where ab:
    "jsSum (map (\<lambda>t. jsMul (jsDiv (snd t) (Fin 100)) (weightOf (fst t))) seen) = Fin a"
    "jsSum (map (\<lambda>t. weightOf (fst t)) seen) = Fin b" "0 \<le> a" "a \<le> b"
    by auto
  from Cons.prems obtain q where q: "snd t = Fin q" "0 \<le> q" "q \<le> 100" by auto
  obtain w where w: "weightOf (fst t) = Fin w" "0 < w" using weightOf_pos by blast
  define c where "c = q / 100 * w"
  have c0: "0 \<le> c" unfolding c_def using q w by simp
  have c1: "c \<le> w"
  proof -
    have "q / 100 \<le> 1" using q by simp
    then have "q / 100 * w \<le> 1 * w" using w(2) by (intro mult_right_mono) auto
    then show ?thesis unfolding c_def by simp
  qed
  have "jsSum (map (\<lambda>t. jsMul (jsDiv (snd t) (Fin 100)) (weightOf (fst t))) (t # seen))
          = Fin (c + a)"
    using ab q w by (simp add: c_def)
  moreover have "jsSum (map (\<lambda>t. weightOf (fst t)) (t # seen)) = Fin (w + b)"
    using ab w by simp
  moreover have "0 \<le> c + a" "c + a \<le> w + b"
    using c0 c1 ab by linarith+
  ultimately show ?case by blast
qed

lemma weightedRisk_range:
  assumes "list_all (\<lambda>t. \<exists>q. snd t = Fin q \<and> 0 \<le> q \<and> q \<le> 100) seen" "seen \<noteq> []"
  shows "\<exists>k. weightedRisk seen = Fin (of_int k) \<and> 0 \<le> k \<and> k \<le> 100"
proof -
  obtain a b where ab:
    "jsSum (map (\<lambda>t. jsMul (jsDiv (snd t) (Fin 100)) (weightOf (fst t))) seen) = Fin a"
    "jsSum (map (\<lambda>t. weightOf (fst t)) seen) = Fin b" "0 \<le> a" "a \<le> b"
    using average_sums[OF assms(1)] by blast
  obtain q where "jsSum (map (\<lambda>t. weightOf (fst t)) seen) = Fin q" "0 < q"
    using weights_sum_pos[OF assms(2)] by blast
  then have b: "0 < b" using ab(2) by simp
  define x where "x = 100 * (a / b)"
  have x0: "0 \<le> x" unfolding x_def using ab b by simp
  have "a / b \<le> 1" using ab b by simp
  then have x1: "x \<le> 100" unfolding x_def by simp
  have "0 \<le> \<lfloor>x + 1 / 2\<rfloor>" using x0 by simp
  moreover have "\<lfloor>x + 1 / 2\<rfloor> \<le> 100" using x1 by (simp add: floor_le_iff)
  moreover have "weightedRisk seen = Fin (of_int \<lfloor>x + 1 / 2\<rfloor>)"
    unfolding weightedRisk_def ab x_def using b by simp
  ultimately show ?thesis by blast
qed


lemma trim_nonempty: "trim s \<noteq> [] \<Longrightarrow> s \<noteq> []"
  by (auto simp: trim_def)

text \<open>
  C1, amended. For every object whose fields, where present and not null, have the JSON
  type of the schema (a number for confidence and for the likelihood, p, severity and
  frequency of a tactic, a string for its id and name, an array for its examples, an
  object for the kpis, objects as entries of the tactics), whatever the range of the
  numbers, and in particular for the empty object, the normaliser returns, and the
  report it returns has an integer risk score in 0..100, a confidence in [0,1], at most
  30 receipts, an object as kpis and a narrative that is null or a non-empty string (its
  tactics and receipts are lists, and it has a risk label, by construction).
\<close>

theorem typed_input_normalises:
  assumes "typedReport raw"
  shows "case normalizeReport fmt raw of Inr out \<Rightarrow> schemaValid out | Inl e \<Rightarrow> False"
proof -
  from assms obtain kvs where kv: "raw = JObj kvs"
    by (cases raw) (auto simp: typedReport_def)
  from assms have ty:
    "numberOrAbsent (field raw ''confidence'')" "objectOrAbsent (field raw ''kpis'')"
    "list_all typedTactic (suppliedTactics raw)"
    unfolding kv typedReport_def by simp_all
  have g: "getProp raw ''confidence'' = Inr (field raw ''confidence'')"
    unfolding kv by (simp add: getProp_def)
  obtain n where n: "jsCoalesce (field raw ''confidence'') (JNum (Fin (85 / 100))) = JNum n"
      "n \<noteq> NaN"
    using coalesce_number[OF ty(1)] by blast
  obtain conf where conf: "clamp fmt (JNum n) (Fin 0) (Fin 1) = Inr conf" "between 0 1 conf"
    using clamp_number[OF n(2), of 0 1] by auto
  obtain ts where ts: "mapE (normalizeTactic fmt) (suppliedTactics raw) = Inr ts"
      "list_all (\<lambda>t. \<exists>z. score t = Fin (of_int z) \<and> 0 \<le> z \<and> z \<le> 100) ts"
    using typed_mapE[OF ty(3)] by blast
  have n': "jsCoalesce (field raw ''confidence'') (JNum (Fin (17 / 20))) = JNum n"
    using n(1) by simp
  have "\<exists>out. normalizeReport fmt raw = Inr out"
    using ts(1) unfolding suppliedTactics_def
    by (simp add: normalizeReport_def g n' conf Let_def)
  then obtain out where out: "normalizeReport fmt raw = Inr out" by blast
  from out obtain ts' where
    c': "clamp fmt (jsCoalesce (field raw ''confidence'') (JNum (Fin (85 / 100)))) (Fin 0) (Fin 1)
       = Inr (confidence out)"
    and m': "mapE (normalizeTactic fmt) (suppliedTactics raw) = Inr ts'"
    and t': "tactics out =
       map (contribution (snd (snd (fold accumulate (seenOf ts') (Fin 0, Fin 0, Fin 0))))) ts'"
    and rc: "receipts out =
       (case field raw ''receipts'' of
          JArr xs \<Rightarrow> take 30 xs
        | r \<Rightarrow> (case optField r ''highlights'' of JArr hs \<Rightarrow> take 30 hs | _ \<Rightarrow> []))"
    and kp: "kpis out = jsOr (field raw ''kpis'') (JObj [])"
    and nr: "narrative_md out =
       (case field raw ''narrative_md'' of
          JStr s \<Rightarrow> (if truthy (JStr (trim s)) then JStr s else JNull)
        | _ \<Rightarrow> JNull)"
    by (rule normalizeReport_Inr)
  have tt: "ts' = ts" using m' ts(1) by simp
  have seen: "seenOf (tactics out) = seenOf ts"
    unfolding t' tt by (rule seenOf_contribution)
  have "list_all (\<lambda>t. \<exists>q. snd t = Fin q \<and> 0 \<le> q \<and> q \<le> 100) (seenOf ts)"
  proof (cases "ts = []")
    case True
    then show ?thesis by (simp add: seenOf_def)
  next
    case False
    have "\<And>t. t \<in> set ts \<Longrightarrow> \<exists>q. score t = Fin q \<and> 0 \<le> q \<and> q \<le> 100"
    proof -
      fix t assume "t \<in> set ts"
      then obtain z where "score t = Fin (of_int z)" "0 \<le> z" "z \<le> 100"
        using ts(2) by (auto simp: list_all_iff)
      then show "\<exists>q. score t = Fin q \<and> 0 \<le> q \<and> q \<le> 100"
        by (intro exI[of _ "of_int z"]) simp
    qed
    then show ?thesis using False by (simp add: seenOf_def list_all_iff)
  qed
  moreover have "seenOf ts \<noteq> []" by (simp add: seenOf_def)
  ultimately obtain k where k: "weightedRisk (seenOf ts) = Fin (of_int k)" "0 \<le> k" "k \<le> 100"
    using weightedRisk_range by blast
  have "risk_score out = Fin (of_int k)"
    using risk_score_eq[OF out] unfolding seen k by simp
  then have V1: "case risk_score out of
         Fin q \<Rightarrow> of_int \<lfloor>q\<rfloor> = q \<and> 0 \<le> q \<and> q \<le> 100
       | _ \<Rightarrow> False"
    using k by simp
  have "confidence out = conf" using c' unfolding n conf by simp
  then have V2: "between 0 1 (confidence out)" using conf(2) by simp
  have V3: "length (receipts out) \<le> 30"
    unfolding rc
    by (cases "field raw ''receipts''"; cases "optField (field raw ''receipts'') ''highlights''")
       simp_all
  have V4: "case kpis out of JObj kvs \<Rightarrow> True | _ \<Rightarrow> False"
    unfolding kp using ty(2)
    by (cases "field raw ''kpis''") (simp_all add: objectOrAbsent_def jsOr_def)
  have V5: "case narrative_md out of JNull \<Rightarrow> True | JStr s \<Rightarrow> s \<noteq> [] | _ \<Rightarrow> False"
    unfolding nr
    by (cases "field raw ''narrative_md''") (auto simp: trim_nonempty)
  have "schemaValid out"
    unfolding schemaValid_def using V1 V2 V3 V4 V5 by (intro conjI)
  then show ?thesis unfolding out by simp
qed

text \<open>
  The empty object, and an object with null fields and numbers out of range, are typed
  and give valid reports.
\<close>

theorem typed_input_normalises_witness:
  "typedReport (JObj [])
   \<and> (case normalizeReport sampleFormat (JObj []) of
         Inr out \<Rightarrow> schemaValid out | Inl e \<Rightarrow> False)
   \<and> typedReport
        (JObj [(''confidence'', JNum (Fin 7)), (''kpis'', JNull), (''receipts'', JNull),
               (''tactics'',
                JArr [JObj [(''id'', JStr ''Threats''), (''likelihood'', JNum (Fin (- 3))),
                            (''severity'', JNull), (''frequency'', JNum (Fin 99))]])])
   \<and> (case normalizeReport sampleFormat
               (JObj [(''confidence'', JNum (Fin 7)), (''kpis'', JNull), (''receipts'', JNull),
                      (''tactics'',
                       JArr [JObj [(''id'', JStr ''Threats''),
                                   (''likelihood'', JNum (Fin (- 3))),
                                   (''severity'', JNull), (''frequency'', JNum (Fin 99))]])]) of
         Inr out \<Rightarrow> schemaValid out | Inl e \<Rightarrow> False)"
proof -
  let ?raw = "JObj [(''confidence'', JNum (Fin 7)), (''kpis'', JNull), (''receipts'', JNull),
               (''tactics'',
                JArr [JObj [(''id'', JStr ''Threats''), (''likelihood'', JNum (Fin (- 3))),
                            (''severity'', JNull), (''frequency'', JNum (Fin 99))]])]"
  have h1: "typedReport (JObj [])"
    by (simp add: typedReport_def suppliedTactics_def field_def numberOrAbsent_def
        objectOrAbsent_def)
  have h2: "typedReport ?raw"
    by (simp add: typedReport_def typedTactic_def suppliedTactics_def field_def
        numberOrAbsent_def objectOrAbsent_def textOrAbsent_def arrayOrAbsent_def)
  show ?thesis
    by (intro conjI h1 h2 typed_input_normalises[OF h1] typed_input_normalises[OF h2])
qed

text \<open>
  A null entry among the tactics makes the normaliser raise; a frequency that is the
  text \<^verbatim>\<open>often\<close> gives a risk score that is \<^verbatim>\<open>NaN\<close>.
\<close>

theorem untyped_input_counterexample:
  "normalizeReport sampleFormat (JObj [(''tactics'', JArr [JNull])])
     = Inl (TypeError ''Cannot read properties of null or undefined'')
   \<and> map_sum id risk_score
       (normalizeReport sampleFormat
          (JObj [(''tactics'', JArr [JObj [(''frequency'', JStr ''often'')]])])) = Inr NaN"
  by (simp add: evalReport evalNumber)

section \<open>Contributions\<close>



lemma jsSum_Fin:
  "list_all (\<lambda>x. \<exists>q. x = Fin q) xs \<Longrightarrow> jsSum xs = Fin (sum_list (map ratOf xs))"
  by (induction xs) auto

lemma weightedScore_contribution [simp]:
  "weightedScore (contribution S t) = weightedScore t"
  by (simp add: weightedScore_def contribution_def Let_def)

















section \<open>The handler\<close>

lemma loadJob_loaded:
  assumes "loadJob ev req w = Inr (Inr (i, jb))"
  shows "jobs w i = Some jb"
  using assms unfolding loadJob_def
  by (auto split: option.splits sum.splits if_splits)

lemma updateJob_calls: "updateJob ev st i f w = Inr w1 \<Longrightarrow> calls w1 = calls w"
  by (auto simp: updateJob_def split: option.splits)

lemma catchBlock_reply [simp]: "fst (catchBlock ev req e w) = (200, ''ok'')"
  by (simp add: catchBlock_def)

lemma catchBlock_calls [simp]: "calls (snd (catchBlock ev req e w)) = calls w"
  by (auto simp: catchBlock_def updateJob_def split: sum.splits option.splits)


lemma sample_loaded:
  "loadJob sampleEnv sampleRequest (sampleWorld ps) = Inr (Inr (''j1'', sampleJob ps))"
  by (simp add: loadJob_def sampleEnv_def sampleRequest_def sampleWorld_def getProp_def
      field_def docRef_def)

text \<open>
  C7. For every job that the handler loads and whose files are more than its plan
  allows, the handler replies 200 and makes no call at all to the image, recognition,
  classification or object stores (so no preprocessing, no OCR and no classification);
  and, the document store taking the write, the job is then in status \<^verbatim>\<open>error\<close> with the
  error code \<^verbatim>\<open>too_many_files\<close>, without having been in status \<^verbatim>\<open>processing\<close>.
\<close>

theorem too_many_files_rejected:
  assumes load: "loadJob ev req w = Inr (Inr (i, jb))"
    and over: "maxForPlan ev (plan jb) < length (filesOr (files jb))"
  shows "fst (handler ev req w) = (200, ''ok'')
    \<and> calls (snd (handler ev req w)) = calls w
    \<and> (fault ev WriteTooMany = None \<longrightarrow>
          jobs (snd (handler ev req w)) i =
            Some (jb\<lparr>status := ''error'',
                     error := Some (ErrorObject ''too_many_files''
                       (''max '' @ numText ev (Fin (of_nat (maxForPlan ev (plan jb))))
                          @ '' for plan''))\<rparr>))"
proof (cases "fault ev WriteTooMany")
  case None
  have j: "jobs w i = Some jb" by (rule loadJob_loaded[OF load])
  show ?thesis
    using over by (simp add: handler_def tryBody_def load updateJob_def None j Let_def)
next
  case (Some e)
  have "tryBody ev req w = (Inl e, w)"
    using over by (simp add: tryBody_def load updateJob_def Some Let_def)
  then show ?thesis
    by (simp add: handler_def Some)
qed

text \<open>Four files on the free plan, whose limit is 3.\<close>

theorem too_many_files_rejected_witness:
  "fst (handler sampleEnv sampleRequest (sampleWorld [''a'', ''c'', ''a'', ''c''])) = (200, ''ok'')
   \<and> calls (snd (handler sampleEnv sampleRequest (sampleWorld [''a'', ''c'', ''a'', ''c'']))) = []
   \<and> map_option status
        (jobs (snd (handler sampleEnv sampleRequest (sampleWorld [''a'', ''c'', ''a'', ''c''])))
           ''j1'') = Some ''error''"
proof -
  let ?ps = "[''a'', ''c'', ''a'', ''c'']"
  have over: "maxForPlan sampleEnv (plan (sampleJob ?ps)) < length (filesOr (files (sampleJob ?ps)))"
    by (simp add: maxForPlan_def sampleEnv_def sampleJob_def filesOr_def)
  have ok: "fault sampleEnv WriteTooMany = None"
    by (simp add: sampleEnv_def)
  have c: "calls (sampleWorld ?ps) = []"
    by (simp add: sampleWorld_def)
  show ?thesis
    using too_many_files_rejected[OF sample_loaded over] ok c by simp
qed






text \<open>When the store refuses the write of the error too, the failure is dropped.\<close>

lemma refused_error_write_dropped:
  assumes "tryBody ev req w = (Inl e, w1)" "fault ev WriteError = Some e'"
  shows "handler ev req w = ((200, ''ok''), w1)"
  using assms
  by (simp add: handler_def catchBlock_def updateJob_def split: sum.splits)



lemma removed_iff:
  "removed ev f = (deleteFile ev (path f) = Deleted \<or> deleteFile ev (path f) = NotFound)"
  by (cases "deleteFile ev (path f)") (simp_all add: removed_def)

text \<open>
  C9. For a job that was loaded, is within its plan's limit and was classified, the
  document store taking the writes: the purge succeeds exactly when every deletion
  either succeeded or found nothing; the report's \<^verbatim>\<open>images_deleted\<close> is true exactly when
  the purge succeeded; the job is in status \<^verbatim>\<open>complete\<close> in both cases, and when the
  purge failed it carries the warning (when it succeeded its warning is untouched).
\<close>

theorem purge_outcome:
  assumes load: "loadJob ev req w = Inr (Inr (i, jb))"
    and within: "\<not> maxForPlan ev (plan jb) < length (filesOr (files jb))"
    and classified: "fst (analysis ev jb) = Inr rj"
    and store: "fault ev WriteProcessing = None" "fault ev WriteReport = None"
      "fault ev WriteComplete = None" "fault ev WriteImagesDeleted = None"
  shows "fst (handler ev req w) = (200, ''ok'')
    \<and> fst (purgeImages ev (files jb))
        = (\<forall>f \<in> set (filesOr (files jb)).
             deleteFile ev (path f) = Deleted \<or> deleteFile ev (path f) = NotFound)
    \<and> map_option status (jobs (snd (handler ev req w)) i) = Some ''complete''
    \<and> map_option reportId (jobs (snd (handler ev req w)) i) = Some (Some i)
    \<and> map_option warn (jobs (snd (handler ev req w)) i)
        = Some (if fst (purgeImages ev (files jb)) then warn jb
                else Some ''purge_failed_lifecycle_will_cleanup'')
    \<and> map_option images_deleted (reports (snd (handler ev req w)) i)
        = Some (fst (purgeImages ev (files jb)))"
proof -
  have j: "jobs w i = Some jb" by (rule loadJob_loaded[OF load])
  have P: "fst (purgeImages ev (files jb))
        = (\<forall>f \<in> set (filesOr (files jb)).
             deleteFile ev (path f) = Deleted \<or> deleteFile ev (path f) = NotFound)"
    by (simp add: purgeImages_def list_all_iff removed_iff)
  have H: "handler ev req w =
        (case tryBody ev req w of (Inr reply, w1) \<Rightarrow> (reply, w1)
         | (Inl e, w1) \<Rightarrow> catchBlock ev req e w1)"
    by (simp add: handler_def)
  have T: "tryBody ev req w = processJob ev i jb w"
    using within by (simp add: tryBody_def load Let_def)
  let ?p = "fst (purgeImages ev (files jb))"
  have E: "handler ev req w =
        ((200, ''ok''),
         w\<lparr>jobs := (jobs w)(i \<mapsto>
             jb\<lparr>status := ''complete'', reportId := Some i,
                warn := (if ?p then warn jb else Some ''purge_failed_lifecycle_will_cleanup'')\<rparr>),
           reports := (reports w)(i \<mapsto>
             \<lparr>doc_reportId = i, doc_userId = ownerOf jb, doc_jobId = i, json = rj,
              images_deleted = ?p\<rparr>),
           calls := calls w @ snd (analysis ev jb) @ snd (purgeImages ev (files jb))\<rparr>)"
    unfolding H T
    by (cases ?p)
       (simp_all add: processJob_def finishJob_def updateJob_def setReport_def updateReport_def
          store j classified Let_def)
  have c1: "fst (handler ev req w) = (200, ''ok'')"
    by (simp add: E)
  have c3: "map_option status (jobs (snd (handler ev req w)) i) = Some ''complete''"
    by (simp add: E)
  have c4: "map_option reportId (jobs (snd (handler ev req w)) i) = Some (Some i)"
    by (simp add: E)
  have c5: "map_option warn (jobs (snd (handler ev req w)) i)
        = Some (if ?p then warn jb else Some ''purge_failed_lifecycle_will_cleanup'')"
    by (simp add: E)
  have c6: "map_option images_deleted (reports (snd (handler ev req w)) i) = Some ?p"
    by (simp add: E)
  show ?thesis
    by (intro conjI c1 P c3 c4 c5 c6)
qed

lemma sample_classified:
  "\<exists>rj. fst (analysis sampleEnv (sampleJob ps)) = Inr rj"
  by (simp add: analysis_def analyzeWithOpenAI_def extractJson_def sampleEnv_def jsOr_def
      evalReport Let_def)

text \<open>
  Files \<^verbatim>\<open>a\<close> (deleted) and \<^verbatim>\<open>c\<close> (not found): purged. Files \<^verbatim>\<open>a\<close> and \<^verbatim>\<open>b\<close>
  (refused): complete, with the warning, not purged.
\<close>

theorem purge_outcome_witness:
  "map_option images_deleted
      (reports (snd (handler sampleEnv sampleRequest (sampleWorld [''a'', ''c'']))) ''j1'')
     = Some True
   \<and> map_option warn
      (jobs (snd (handler sampleEnv sampleRequest (sampleWorld [''a'', ''c'']))) ''j1'')
     = Some None
   \<and> map_option status
      (jobs (snd (handler sampleEnv sampleRequest (sampleWorld [''a'', ''b'']))) ''j1'')
     = Some ''complete''
   \<and> map_option warn
      (jobs (snd (handler sampleEnv sampleRequest (sampleWorld [''a'', ''b'']))) ''j1'')
     = Some (Some ''purge_failed_lifecycle_will_cleanup'')
   \<and> map_option images_deleted
      (reports (snd (handler sampleEnv sampleRequest (sampleWorld [''a'', ''b'']))) ''j1'')
     = Some False"
proof -
  have within: "\<not> maxForPlan sampleEnv (plan (sampleJob ps)) < length (filesOr (files (sampleJob ps)))"
    if "length ps \<le> 3" for ps
    using that by (simp add: maxForPlan_def sampleEnv_def sampleJob_def filesOr_def)
  have store: "fault sampleEnv st = None" for st
    by (simp add: sampleEnv_def)
  obtain r1 where r1: "fst (analysis sampleEnv (sampleJob [''a'', ''c''])) = Inr r1"
    using sample_classified by blast
  obtain r2 where r2: "fst (analysis sampleEnv (sampleJob [''a'', ''b''])) = Inr r2"
    using sample_classified by blast
  have p1: "fst (purgeImages sampleEnv (files (sampleJob [''a'', ''c''])))"
    by (simp add: purgeImages_def removed_def filesOr_def sampleEnv_def sampleJob_def)
  have p2: "\<not> fst (purgeImages sampleEnv (files (sampleJob [''a'', ''b''])))"
    by (simp add: purgeImages_def removed_def filesOr_def sampleEnv_def sampleJob_def)
  have w1: "warn (sampleJob ps) = None" for ps
    by (simp add: sampleJob_def)
  note A = purge_outcome[OF sample_loaded within r1 store store store store]
  note B = purge_outcome[OF sample_loaded within r2 store store store store]
  have a: "map_option images_deleted
      (reports (snd (handler sampleEnv sampleRequest (sampleWorld [''a'', ''c'']))) ''j1'')
     = Some True"
    using A p1 by simp
  have b: "map_option warn
      (jobs (snd (handler sampleEnv sampleRequest (sampleWorld [''a'', ''c'']))) ''j1'')
     = Some None"
    using A p1 w1 by simp
  have c: "map_option status
      (jobs (snd (handler sampleEnv sampleRequest (sampleWorld [''a'', ''b'']))) ''j1'')
     = Some ''complete''"
    using B by simp
  have d: "map_option warn
      (jobs (snd (handler sampleEnv sampleRequest (sampleWorld [''a'', ''b'']))) ''j1'')
     = Some (Some ''purge_failed_lifecycle_will_cleanup'')"
    using B p2 by simp
  have e: "map_option images_deleted
      (reports (snd (handler sampleEnv sampleRequest (sampleWorld [''a'', ''b'']))) ''j1'')
     = Some False"
    using B p2 by simp
  show ?thesis by (intro conjI a b c d e)
qed

end
